theory Spec2Isabelle
  imports Complex_Main "HOL-Library.Sublist"
begin

section \<open>Strings\<close>

text \<open>
  A JavaScript string is a sequence of UTF-16 code units. It is modelled as a \<^typ>\<open>string\<close>,
  a \<^typ>\<open>char\<close> standing for the code unit of the same value, so the model covers the strings
  whose code units are below 256 (ASCII and the Latin-1 supplement).
\<close>

abbreviation NL :: string where
  "NL \<equiv> [CHR 0x0A]"

text \<open>
  \<open>WhiteSpace\<close> and \<open>LineTerminator\<close> of ECMAScript, which is what both \<open>\s\<close> in a regular
  expression and \<open>String.prototype.trim\<close> strip: TAB, LF, VT, FF, CR, space and the
  no-break space are the ones below 256.
\<close>

definition isWhiteSpace :: "char \<Rightarrow> bool" where
  "isWhiteSpace c =
     (c = CHR 0x09 \<or> c = CHR 0x0A \<or> c = CHR 0x0B \<or> c = CHR 0x0C \<or> c = CHR 0x0D \<or>
      c = CHR 0x20 \<or> c = CHR 0xA0)"

definition trim :: "string \<Rightarrow> string" where
  "trim s = rev (dropWhile isWhiteSpace (rev (dropWhile isWhiteSpace s)))"

text \<open>
  \<open>String.prototype.toLowerCase\<close> on code units below 256: the ASCII capitals and the
  Latin-1 capitals \<open>0xC0..0xDE\<close> (without the multiplication sign \<open>0xD7\<close>) move up by 32,
  every other code unit stays.
\<close>

definition toLowerCase_char :: "char \<Rightarrow> char" where
  "toLowerCase_char c =
     (let n = (of_char c :: nat)
      in if (65 \<le> n \<and> n \<le> 90) \<or> (192 \<le> n \<and> n \<le> 222 \<and> n \<noteq> 215)
         then char_of (n + 32) else c)"

definition toLowerCase :: "string \<Rightarrow> string" where
  "toLowerCase s = map toLowerCase_char s"

text \<open>\<open>s.startsWith(t)\<close> and \<open>s.includes(t)\<close>, by a scan from the left.\<close>

fun startsWith :: "string \<Rightarrow> string \<Rightarrow> bool" where
  "startsWith s [] = True"
| "startsWith [] (p # ps) = False"
| "startsWith (c # cs) (p # ps) = (if c = p then startsWith cs ps else False)"

fun includes_str :: "string \<Rightarrow> string \<Rightarrow> bool" where
  "includes_str [] t = (t = [])"
| "includes_str (c # cs) t = (if startsWith (c # cs) t then True else includes_str cs t)"

text \<open>
  \<open>s.split('\n')\<close>: the pieces between the line feeds; the empty string gives one empty
  piece. (The last case of the \<open>case\<close> is never reached: the result is never empty.)
\<close>

fun split_nl :: "string \<Rightarrow> string list" where
  "split_nl [] = [[]]"
| "split_nl (c # cs) =
     (if c = CHR 0x0A then [] # split_nl cs
      else (case split_nl cs of l # ls \<Rightarrow> (c # l) # ls | [] \<Rightarrow> [[c]]))"

section \<open>The regular expressions\<close>

text \<open>
  All patterns carry the flag \<open>i\<close> and no flag \<open>u\<close>: a pattern character matches a code unit
  when both have the same \<open>Canonicalize\<close> image, the upper-case form. \<open>Canonicalize\<close> never
  sends a code unit from 128 up to one below 128, and the patterns are ASCII, so only the
  ASCII letters matter and the other code units are left alone here.
\<close>

definition canonicalize :: "char \<Rightarrow> char" where
  "canonicalize c =
     (let n = (of_char c :: nat)
      in if 97 \<le> n \<and> n \<le> 122 then char_of (n - 32) else c)"

text \<open>The literal part of a pattern, matched at the start of the remaining input.\<close>

fun matches_ci :: "string \<Rightarrow> string \<Rightarrow> bool" where
  "matches_ci [] s = True"
| "matches_ci (p # ps) [] = False"
| "matches_ci (p # ps) (c # cs) =
     (if canonicalize c = canonicalize p then matches_ci ps cs else False)"

text \<open>
  \<open>String.prototype.match\<close> with a pattern without flag \<open>g\<close> tries the start positions from
  the left. \<open>after_first_ci p s\<close> is the input behind the leftmost match of the literal \<open>p\<close>.
\<close>

fun after_first_ci :: "string \<Rightarrow> string \<Rightarrow> string option" where
  "after_first_ci p [] = (if p = [] then Some [] else None)"
| "after_first_ci p (c # cs) =
     (if matches_ci p (c # cs) then Some (drop (length p) (c # cs))
      else after_first_ci p cs)"

text \<open>
  The lazy group \<open>([\s\S]*?)\<close> before the lookahead \<open>(?=IMAGE_PROMPT:|$)\<close>: it takes code
  units one at a time until the literal matches at the current position or the input ends.
\<close>

fun lazy_until_ci :: "string \<Rightarrow> string \<Rightarrow> string" where
  "lazy_until_ci p [] = []"
| "lazy_until_ci p (c # cs) =
     (if matches_ci p (c # cs) then [] else c # lazy_until_ci p cs)"

text \<open>
  \<open>text.match(/FACTS:\s*([\s\S]*?)(?=IMAGE_PROMPT:|$)/i)\<close>, group 1 of the match or \<open>None\<close>
  for \<open>null\<close>. At the leftmost \<open>FACTS:\<close> the greedy \<open>\s*\<close> takes all the white space; the
  lazy group can always reach the end of the input, so this first attempt succeeds and
  nothing is backtracked.
\<close>

definition factsMatch :: "string \<Rightarrow> string option" where
  "factsMatch txt =
     (case after_first_ci ''FACTS:'' txt of
        None \<Rightarrow> None
      | Some rest \<Rightarrow> Some (lazy_until_ci ''IMAGE_PROMPT:'' (dropWhile isWhiteSpace rest)))"

text \<open>
  \<open>text.match(/IMAGE_PROMPT:\s*([\s\S]*?)$/i)\<close>: without flag \<open>m\<close> the \<open>$\<close> is the end of the
  input, so the group is all that follows the white space.
\<close>

definition promptMatch :: "string \<Rightarrow> string option" where
  "promptMatch txt =
     (case after_first_ci ''IMAGE_PROMPT:'' txt of
        None \<Rightarrow> None
      | Some rest \<Rightarrow> Some (dropWhile isWhiteSpace rest))"

text \<open>\<open>f.replace(/^-\s*/, '')\<close>: a dash at the very start goes, with the white space behind it.\<close>

fun replace_dash :: "string \<Rightarrow> string" where
  "replace_dash [] = []"
| "replace_dash (c # cs) = (if c = CHR ''-'' then dropWhile isWhiteSpace cs else c # cs)"

text \<open>
  \<open>currentImageBase64.replace(/^data:image\/(png|jpeg|jpg);base64,/, '')\<close>: case-sensitive,
  anchored at the start, the alternatives tried in the order written.
\<close>

definition replace_data_prefix :: "string \<Rightarrow> string" where
  "replace_data_prefix s =
     (if startsWith s ''data:image/'' then
        (let r = drop (length ''data:image/'') s
         in if startsWith r ''png;base64,'' then drop (length ''png;base64,'') r
            else if startsWith r ''jpeg;base64,'' then drop (length ''jpeg;base64,'') r
            else if startsWith r ''jpg;base64,'' then drop (length ''jpg;base64,'') r
            else s)
      else s)"

section \<open>Data model\<close>

text \<open>
  \<open>ComplexityLevel\<close>, \<open>VisualStyle\<close> and \<open>Language\<close> come from \<open>../types\<close>; the service
  compares them with string literals and splices them into templates, with a \<open>default\<close>
  branch for any other value, so they are strings here.
\<close>

type_synonym ComplexityLevel = string
type_synonym VisualStyle = string
type_synonym Language = string

record SearchResultItem =
  title :: string
  url :: string

record ResearchResult =
  imagePrompt :: string
  facts :: "string list"
  searchResults :: "SearchResultItem list"

text \<open>
  The request and response objects of the provider's client, as far as the service writes
  or reads them. An optional property is an \<open>option\<close>.
\<close>

record Blob =
  mimeType :: "string option"
  data :: "string option"

record Part =
  part_text :: "string option"
  inlineData :: "Blob option"

record Content =
  parts :: "Part list option"

record GroundingChunkWeb =
  uri :: "string option"
  web_title :: "string option"

record GroundingChunk =
  web :: "GroundingChunkWeb option"

record GroundingMetadata =
  groundingChunks :: "GroundingChunk list option"

record Candidate =
  content :: "Content option"
  groundingMetadata :: "GroundingMetadata option"

record GenerateContentResponse =
  response_text :: "string option"
  candidates :: "Candidate list option"

datatype Tool = GoogleSearch

record GenerateContentConfig =
  temperature :: "real option"
  topK :: "int option"
  topP :: "real option"
  tools :: "Tool list option"

datatype ContentListUnion = ContentString string | ContentParts "Part list"

record GenerateContentParameters =
  model :: string
  contents :: ContentListUnion
  config :: "GenerateContentConfig option"

text \<open>
  \<open>Error msg\<close> is \<open>throw new Error(msg)\<close> of the service itself; \<open>Rejected reason\<close> is the
  awaited call of the provider rejecting, which the service lets through.
\<close>

datatype error = Error string | Rejected string

text \<open>
  \<open>getAi().models.generateContent\<close>: a fresh client for every request, here the function
  from the request to the outcome of the call.
\<close>

type_synonym provider = "GenerateContentParameters \<Rightarrow> string + GenerateContentResponse"

definition TEXT_MODEL :: string where
  "TEXT_MODEL = ''gemini-2.5-flash''"

definition IMAGE_MODEL :: string where
  "IMAGE_MODEL = ''gemini-2.5-flash-image''"

definition EDIT_MODEL :: string where
  "EDIT_MODEL = ''gemini-2.5-flash-image''"

section \<open>Prompt building\<close>

definition getLevelInstruction :: "ComplexityLevel \<Rightarrow> string" where
  \<open>getLevelInstruction level =
     (if level = ''Elementary'' then
        ''Target Audience: Elementary School (Ages 6-10). Design Requirements: Extra large, bold text (minimum 24pt equivalent). Bright primary colors. Simple geometric icons and illustrations. Maximum 3-5 key points. Wide spacing between elements. Playful but clear layout. Minimal technical jargon.''
      else
     (if level = ''High School'' then
        ''Target Audience: High School (Ages 14-18). Design Requirements: Clear, readable text (18-22pt equivalent). Balanced color scheme. Mix of diagrams, charts, and illustrations. Include 5-8 key concepts. Standard infographic layout with sections. Some technical terms with visual explanations.''
      else
     (if level = ''College'' then
        ''Target Audience: University/College (Ages 18-25). Design Requirements: Detailed text (14-18pt equivalent). Professional color palette. Complex diagrams, data visualizations, and cross-sections. Include 8-12 detailed points. Dense but organized layout. Technical terminology with precise labels.''
      else
     (if level = ''Expert'' then
        ''Target Audience: Industry Expert/Professional. Design Requirements: Technical precision text (12-16pt equivalent). Sophisticated color scheme or monochrome. Highly detailed schematics, blueprints, and technical diagrams. Include 12+ comprehensive points. Dense information with hierarchical organization. Advanced technical terminology and precise annotations.''
      else
        ''Target Audience: General Public. Design Requirements: Clear, accessible design with readable text and balanced complexity.''))))\<close>

definition getStyleInstruction :: "VisualStyle \<Rightarrow> string" where
  \<open>getStyleInstruction style =
     (if style = ''Minimalist'' then
        ''Aesthetic: Bauhaus Minimalist. Flat vector art with crisp edges. Limited color palette (2-3 bold colors). Heavy use of negative white space. Simple geometric shapes (circles, squares, lines). Sans-serif typography. Grid-based layout. High contrast. Ultra-clean composition.''
      else
     (if style = ''Realistic'' then
        ''Aesthetic: Photorealistic Composite. Professional photography style. Natural lighting and shadows. 8K resolution detail. Highly detailed textures and materials. Depth of field. Looks like a high-end magazine photo spread with real objects and environments.''
      else
     (if style = ''Cartoon'' then
        ''Aesthetic: Modern Educational Comic. Vibrant saturated colors. Bold black outlines (2-3px). Cel-shaded flat colors with simple highlights. Expressive character-like elements. Dynamic compositions. Speech bubbles or callouts. Friendly and engaging visual narrative style.''
      else
     (if style = ''Vintage'' then
        ''Aesthetic: 19th Century Scientific Lithograph. Hand-engraved appearance. Sepia, cream, and brown tones. Aged paper texture background. Fine cross-hatching and stippling. Ornate borders and decorative elements. Classical typography. Museum-quality historical scientific illustration.''
      else
     (if style = ''Futuristic'' then
        ''Aesthetic: Cyberpunk HUD Interface. Dark background (black or deep blue). Glowing neon lines (cyan, blue, magenta). Holographic translucent panels. Digital grid overlays. 3D wireframe elements. Geometric tech patterns. Sci-fi dashboard aesthetic with digital readouts and data streams.''
      else
     (if style = ''3D Render'' then
        ''Aesthetic: 3D Isometric Render. Clean isometric perspective. Smooth gradients and soft shadows. Glossy plastic or claymorphism materials. Studio lighting with rim lights. Soft ambient occlusion. Looks like a high-quality physical model or toy. Rounded corners and friendly shapes.''
      else
     (if style = ''Sketch'' then
        ''Aesthetic: Technical Blueprint/Da Vinci Notebook. Pen and ink style on cream parchment. Hand-drawn appearance with consistent line weight. Handwritten-style annotations and labels. Construction lines visible. Cross-sections and technical details. Looks like an architect's or inventor's working sketch.''
      else
        ''Aesthetic: Modern Scientific Infographic. Clean digital illustration. Professional color palette. Clear hierarchy. Mix of icons, diagrams, and data visualizations. Contemporary design trends. Publication-quality. Balanced composition with proper spacing.'')))))))\<close>

definition systemPrompt :: "string \<Rightarrow> string \<Rightarrow> string \<Rightarrow> Language \<Rightarrow> string" where
  \<open>systemPrompt topic levelInstr styleInstr language =
     NL @
     ''    You are an expert visual researcher and infographic designer.'' @ NL @
     ''    Your goal is to research the topic: "'' @ topic @ ''" and create a detailed prompt for a professional infographic.'' @ NL @
     NL @
     ''    **IMPORTANT: Use the Google Search tool to find the most accurate, up-to-date information about this topic.**'' @ NL @
     NL @
     ''    Context:'' @ NL @
     ''    '' @ levelInstr @ NL @
     ''    '' @ styleInstr @ NL @
     ''    Language: '' @ language @ NL @
     NL @
     ''    Please provide your response in the following format EXACTLY:'' @ NL @
     NL @
     ''    FACTS:'' @ NL @
     ''    - [Fact 1]'' @ NL @
     ''    - [Fact 2]'' @ NL @
     ''    - [Fact 3]'' @ NL @
     NL @
     ''    IMAGE_PROMPT:'' @ NL @
     ''    [A highly detailed image generation prompt that must include:'' @ NL @
     ''    - Explicit instruction: "Create a 16:9 widescreen format infographic"'' @ NL @
     ''    - Overall composition and layout (horizontal panels, flowcharts, diagrams, etc.)'' @ NL @
     ''    - Specific visual elements (icons, charts, illustrations, data visualizations)'' @ NL @
     ''    - Color scheme and palette'' @ NL @
     ''    - Typography guidance (large, readable text in '' @ language @ '')'' @ NL @
     ''    - Background treatment'' @ NL @
     ''    - Any specific design patterns appropriate for the style'' @ NL @
     ''    Do not include citations or references in the prompt.]'' @ NL @
     ''  ''\<close>

definition research_request ::
  "string \<Rightarrow> ComplexityLevel \<Rightarrow> VisualStyle \<Rightarrow> Language \<Rightarrow> GenerateContentParameters" where
  "research_request topic level style language =
     \<lparr>model = TEXT_MODEL,
      contents = ContentString
        (systemPrompt topic (getLevelInstruction level) (getStyleInstruction style) language),
      config = Some \<lparr>temperature = None, topK = None, topP = None,
                     tools = Some [GoogleSearch]\<rparr>\<rparr>"

section \<open>Research: parsing the response\<close>

text \<open>Lines 97 to 102: the facts.\<close>

definition parse_facts :: "string \<Rightarrow> string list" where
  "parse_facts txt =
     (let factsRaw = (case factsMatch txt of Some g \<Rightarrow> trim g | None \<Rightarrow> [])
      in take 5 (filter (\<lambda>f. length f > 0)
                  (map (\<lambda>f. trim (replace_dash f)) (split_nl factsRaw))))"

text \<open>Line 106: the prompt of the response, or the fallback built from the topic.\<close>

definition initial_imagePrompt :: "string \<Rightarrow> string \<Rightarrow> string \<Rightarrow> string \<Rightarrow> string" where
  "initial_imagePrompt topic levelInstr styleInstr txt =
     (case promptMatch txt of
        Some g \<Rightarrow> trim g
      | None \<Rightarrow> ''Create a detailed 16:9 widescreen format infographic about '' @ topic @
                ''. '' @ levelInstr @ '' '' @ styleInstr)"

text \<open>Lines 109 to 111: the aspect ratio is always specified.\<close>

definition aspect_mandate :: string where
  "aspect_mandate = ''Create a 16:9 widescreen format infographic. ''"

definition ensure_aspect_ratio :: "string \<Rightarrow> string" where
  "ensure_aspect_ratio p =
     (if \<not> includes_str (toLowerCase p) ''16:9'' \<and> \<not> includes_str (toLowerCase p) ''widescreen''
      then aspect_mandate @ p else p)"

text \<open>Line 114: the quality enhancement suffix, a space and the sentence.\<close>

definition quality_sentence :: string where
  "quality_sentence = ''High resolution, professional quality, crisp and clear details, well-balanced composition, maximum visual clarity.''"

definition add_quality_suffix :: "string \<Rightarrow> string" where
  "add_quality_suffix p = p @ '' '' @ quality_sentence"

text \<open>Lines 117 to 129: the citations of the grounding chunks, pushed in their order.\<close>

definition groundingChunks_of :: "GenerateContentResponse \<Rightarrow> GroundingChunk list option" where
  "groundingChunks_of response =
     (case candidates response of
        None \<Rightarrow> None
      | Some [] \<Rightarrow> None
      | Some (c # _) \<Rightarrow>
          (case groundingMetadata c of None \<Rightarrow> None | Some g \<Rightarrow> groundingChunks g))"

definition push_chunk :: "SearchResultItem list \<Rightarrow> GroundingChunk \<Rightarrow> SearchResultItem list" where
  "push_chunk acc chunk =
     (case web chunk of
        None \<Rightarrow> acc
      | Some w \<Rightarrow>
          (case uri w of
             None \<Rightarrow> acc
           | Some u \<Rightarrow>
               (case web_title w of
                  None \<Rightarrow> acc
                | Some t \<Rightarrow> if u \<noteq> [] \<and> t \<noteq> [] then acc @ [\<lparr>title = t, url = u\<rparr>] else acc)))"

definition extract_searchResults :: "GenerateContentResponse \<Rightarrow> SearchResultItem list" where
  "extract_searchResults response =
     (case groundingChunks_of response of
        None \<Rightarrow> []
      | Some chunks \<Rightarrow> foldl push_chunk [] chunks)"

text \<open>
  Line 132. A JavaScript \<open>Map\<close> keeps its keys in the order of their first insertion;
  \<open>set\<close> on a key that is present replaces the value where it stands. It is an association
  list here, \<open>new Map(entries)\<close> sets the entries from the left, \<open>values()\<close> reads it off.
\<close>

fun Map_set :: "('k \<times> 'v) list \<Rightarrow> 'k \<Rightarrow> 'v \<Rightarrow> ('k \<times> 'v) list" where
  "Map_set [] k v = [(k, v)]"
| "Map_set ((k', v') # m) k v = (if k' = k then (k', v) # m else (k', v') # Map_set m k v)"

definition new_Map :: "('k \<times> 'v) list \<Rightarrow> ('k \<times> 'v) list" where
  "new_Map entries = foldl (\<lambda>m (k, v). Map_set m k v) [] entries"

definition Map_values :: "('k \<times> 'v) list \<Rightarrow> 'v list" where
  "Map_values m = map snd m"

definition uniqueResults :: "SearchResultItem list \<Rightarrow> SearchResultItem list" where
  "uniqueResults results = Map_values (new_Map (map (\<lambda>item. (url item, item)) results))"

text \<open>Line 94: \<open>response.text || ""\<close>.\<close>

definition text_of :: "GenerateContentResponse \<Rightarrow> string" where
  "text_of response = (case response_text response of Some t \<Rightarrow> t | None \<Rightarrow> [])"

definition research_result ::
  "string \<Rightarrow> ComplexityLevel \<Rightarrow> VisualStyle \<Rightarrow> GenerateContentResponse \<Rightarrow> ResearchResult" where
  "research_result topic level style response =
     (let levelInstr = getLevelInstruction level;
          styleInstr = getStyleInstruction style;
          txt = text_of response
      in \<lparr>imagePrompt = add_quality_suffix
                          (ensure_aspect_ratio (initial_imagePrompt topic levelInstr styleInstr txt)),
          facts = parse_facts txt,
          searchResults = uniqueResults (extract_searchResults response)\<rparr>)"

definition researchTopicForPrompt ::
  "provider \<Rightarrow> string \<Rightarrow> ComplexityLevel \<Rightarrow> VisualStyle \<Rightarrow> Language \<Rightarrow> error + ResearchResult" where
  "researchTopicForPrompt generateContent topic level style language =
     (case generateContent (research_request topic level style language) of
        Inl reason \<Rightarrow> Inl (Rejected reason)
      | Inr response \<Rightarrow> Inr (research_result topic level style response))"

section \<open>Images\<close>

text \<open>\<open>response.candidates?.[0]?.content?.parts || []\<close>\<close>

definition response_parts :: "GenerateContentResponse \<Rightarrow> Part list" where
  "response_parts response =
     (case candidates response of
        None \<Rightarrow> []
      | Some [] \<Rightarrow> []
      | Some (c # _) \<Rightarrow>
          (case content c of
             None \<Rightarrow> []
           | Some ct \<Rightarrow> (case parts ct of None \<Rightarrow> [] | Some ps \<Rightarrow> ps)))"

text \<open>
  The test \<open>part.inlineData && part.inlineData.data\<close> of the three loops: the part has
  inline data whose payload is a non-empty string.
\<close>

definition inline_payload :: "Part \<Rightarrow> string option" where
  "inline_payload part =
     (case inlineData part of
        None \<Rightarrow> None
      | Some b \<Rightarrow> (case data b of None \<Rightarrow> None | Some d \<Rightarrow> if d \<noteq> [] then Some d else None))"

text \<open>The loop \<open>for (const part of parts)\<close> with its \<open>return\<close>: the first payload, if any.\<close>

fun first_inline_payload :: "Part list \<Rightarrow> string option" where
  "first_inline_payload [] = None"
| "first_inline_payload (part # rest) =
     (case inline_payload part of Some d \<Rightarrow> Some d | None \<Rightarrow> first_inline_payload rest)"

definition generateInfographicImage_request :: "string \<Rightarrow> GenerateContentParameters" where
  \<open>generateInfographicImage_request prompt =
     (let enhancedPrompt =
            prompt @ NL @
            NL @
            ''CRITICAL REQUIREMENTS:'' @ NL @
            ''- Format: 16:9 aspect ratio (widescreen/landscape orientation)'' @ NL @
            ''- Resolution: High-definition, print-quality'' @ NL @
            ''- Text: All text must be large, legible, and perfectly readable'' @ NL @
            ''- Layout: Professional infographic design with clear visual hierarchy'' @ NL @
            ''- Graphics: Sharp, detailed, high-contrast elements'' @ NL @
            ''- Background: Clean and complementary to the content'' @ NL @
            ''- Overall: Publication-ready quality suitable for educational or professional use''
      in \<lparr>model = IMAGE_MODEL,
          contents = ContentParts [\<lparr>part_text = Some enhancedPrompt, inlineData = None\<rparr>],
          config = Some \<lparr>temperature = Some 0.4, topK = Some 32, topP = Some 0.95,
                         tools = None\<rparr>\<rparr>)\<close>

definition generateInfographicImage :: "provider \<Rightarrow> string \<Rightarrow> error + string" where
  "generateInfographicImage generateContent prompt =
     (case generateContent (generateInfographicImage_request prompt) of
        Inl reason \<Rightarrow> Inl (Rejected reason)
      | Inr response \<Rightarrow>
          (case first_inline_payload (response_parts response) of
             Some d \<Rightarrow> Inr (''data:image/png;base64,'' @ d)
           | None \<Rightarrow> Inl (Error ''Failed to generate image'')))"

record Verification =
  isAccurate :: bool
  critique :: string

definition verifyInfographicAccuracy ::
  "string \<Rightarrow> string \<Rightarrow> ComplexityLevel \<Rightarrow> VisualStyle \<Rightarrow> Language \<Rightarrow> Verification" where
  "verifyInfographicAccuracy imageBase64 topic level style language =
     \<lparr>isAccurate = True, critique = ''Verification bypassed.''\<rparr>"

definition fixInfographicImage_request :: "string \<Rightarrow> string \<Rightarrow> GenerateContentParameters" where
  \<open>fixInfographicImage_request currentImageBase64 correctionPrompt =
     (let cleanBase64 = replace_data_prefix currentImageBase64;
          prompt =
            NL @
            ''    Edit this image. '' @ NL @
            ''    Goal: Simplify and Fix.'' @ NL @
            ''    Instruction: '' @ correctionPrompt @ ''.'' @ NL @
            ''    Ensure the design is clean and any text is large and legible.'' @ NL @
            ''  ''
      in \<lparr>model = EDIT_MODEL,
          contents = ContentParts
            [\<lparr>part_text = None,
              inlineData = Some \<lparr>mimeType = Some ''image/jpeg'', data = Some cleanBase64\<rparr>\<rparr>,
             \<lparr>part_text = Some prompt, inlineData = None\<rparr>],
          config = None\<rparr>)\<close>

definition fixInfographicImage :: "provider \<Rightarrow> string \<Rightarrow> string \<Rightarrow> error + string" where
  "fixInfographicImage generateContent currentImageBase64 correctionPrompt =
     (case generateContent (fixInfographicImage_request currentImageBase64 correctionPrompt) of
        Inl reason \<Rightarrow> Inl (Rejected reason)
      | Inr response \<Rightarrow>
          (case first_inline_payload (response_parts response) of
             Some d \<Rightarrow> Inr (''data:image/png;base64,'' @ d)
           | None \<Rightarrow> Inl (Error ''Failed to fix image'')))"

definition editInfographicImage_request :: "string \<Rightarrow> string \<Rightarrow> GenerateContentParameters" where
  \<open>editInfographicImage_request currentImageBase64 editInstruction =
     (let cleanBase64 = replace_data_prefix currentImageBase64;
          enhancedInstruction =
            editInstruction @ NL @
            NL @
            ''MAINTAIN QUALITY STANDARDS:'' @ NL @
            ''- Keep 16:9 aspect ratio'' @ NL @
            ''- Maintain high resolution and clarity'' @ NL @
            ''- Ensure all text remains large and readable'' @ NL @
            ''- Keep professional infographic quality'' @ NL @
            ''- Preserve visual hierarchy and composition balance''
      in \<lparr>model = EDIT_MODEL,
          contents = ContentParts
            [\<lparr>part_text = None,
              inlineData = Some \<lparr>mimeType = Some ''image/jpeg'', data = Some cleanBase64\<rparr>\<rparr>,
             \<lparr>part_text = Some enhancedInstruction, inlineData = None\<rparr>],
          config = Some \<lparr>temperature = Some 0.4, topK = Some 32, topP = Some 0.95,
                         tools = None\<rparr>\<rparr>)\<close>

definition editInfographicImage :: "provider \<Rightarrow> string \<Rightarrow> string \<Rightarrow> error + string" where
  "editInfographicImage generateContent currentImageBase64 editInstruction =
     (case generateContent (editInfographicImage_request currentImageBase64 editInstruction) of
        Inl reason \<Rightarrow> Inl (Rejected reason)
      | Inr response \<Rightarrow>
          (case first_inline_payload (response_parts response) of
             Some d \<Rightarrow> Inr (''data:image/png;base64,'' @ d)
           | None \<Rightarrow> Inl (Error ''Failed to edit image'')))"

section \<open>Observations used in the statements\<close>

text \<open>The inline data that a request carries, in the order of its parts.\<close>

definition attached_images :: "GenerateContentParameters \<Rightarrow> Blob list" where
  "attached_images request =
     (case contents request of
        ContentString _ \<Rightarrow> []
      | ContentParts ps \<Rightarrow> List.map_filter inlineData ps)"


text \<open>
  The citation of a grounding chunk that has both a non-empty uri and a non-empty title,
  and the citations of a response in the order of its chunks.
\<close>

definition chunk_citation :: "GroundingChunk \<Rightarrow> SearchResultItem option" where
  "chunk_citation chunk =
     (case web chunk of
        None \<Rightarrow> None
      | Some w \<Rightarrow>
          (case (uri w, web_title w) of
             (Some u, Some t) \<Rightarrow> if u \<noteq> [] \<and> t \<noteq> [] then Some \<lparr>title = t, url = u\<rparr> else None
           | _ \<Rightarrow> None))"

definition citations :: "GenerateContentResponse \<Rightarrow> SearchResultItem list" where
  "citations response =
     (case groundingChunks_of response of
        None \<Rightarrow> []
      | Some chunks \<Rightarrow> List.map_filter chunk_citation chunks)"

text \<open>
  A provider that answers every request with the given response, and responses built
  from grounding chunks, for the examples.
\<close>

definition simulated_provider :: "GenerateContentResponse \<Rightarrow> provider" where
  "simulated_provider response = (\<lambda>request. Inr response)"

definition image_response :: "Part list \<Rightarrow> GenerateContentResponse" where
  "image_response ps =
     \<lparr>response_text = None,
      candidates = Some [\<lparr>content = Some \<lparr>parts = Some ps\<rparr>, groundingMetadata = None\<rparr>]\<rparr>"

definition web_chunk :: "string \<Rightarrow> string \<Rightarrow> GroundingChunk" where
  "web_chunk u t = \<lparr>web = Some \<lparr>uri = Some u, web_title = Some t\<rparr>\<rparr>"

definition grounded_response :: "string option \<Rightarrow> GroundingChunk list \<Rightarrow> GenerateContentResponse" where
  "grounded_response txt chunks =
     \<lparr>response_text = txt,
      candidates = Some [\<lparr>content = None,
                          groundingMetadata = Some \<lparr>groundingChunks = Some chunks\<rparr>\<rparr>]\<rparr>"

definition text_response :: "string \<Rightarrow> GenerateContentResponse" where
  "text_response txt = \<lparr>response_text = Some txt, candidates = None\<rparr>"

text \<open>The number of positions of a string at which a given string occurs.\<close>

fun count_occurrences :: "string \<Rightarrow> string \<Rightarrow> nat" where
  "count_occurrences t [] = (if t = [] then 1 else 0)"
| "count_occurrences t (c # cs) = (if prefix t (c # cs) then 1 else 0) + count_occurrences t cs"

text \<open>
  The FACTS section of a response text: group 1 of the match, trimmed, or the empty string
  (\<open>factsRaw\<close> of line 98).
\<close>

definition facts_section :: "string \<Rightarrow> string" where
  "facts_section txt = (case factsMatch txt of Some g \<Rightarrow> trim g | None \<Rightarrow> [])"

text \<open>
  A response text written as the prompt asks for it: the lines joined by line feeds, a
  fact as a bullet, and a fact that is one non-empty line without white space around it.
\<close>

fun join_nl :: "string list \<Rightarrow> string" where
  "join_nl [] = []"
| "join_nl [l] = l"
| "join_nl (l # l' # ls) = l @ NL @ join_nl (l' # ls)"

definition bullet :: "string \<Rightarrow> string" where
  "bullet f = ''- '' @ f"

definition plain_fact :: "string \<Rightarrow> bool" where
  "plain_fact f =
     (f \<noteq> [] \<and> \<not> isWhiteSpace (hd f) \<and> \<not> isWhiteSpace (last f) \<and> CHR 0x0A \<notin> set f)"

text \<open>
  The facts as the specification words them: from each line of the section a leading
  \<open>"- "\<close> marker (a dash and a space) is stripped, then the surrounding white space; empty
  lines are dropped and at most the first five entries are kept.
\<close>

definition strip_dash_space_marker :: "string \<Rightarrow> string" where
  "strip_dash_space_marker l = (if prefix ''- '' l then drop 2 l else l)"

definition facts_as_specified :: "string \<Rightarrow> string list" where
  "facts_as_specified section =
     take 5 (filter (\<lambda>l. l \<noteq> [])
               (map (\<lambda>l. trim (strip_dash_space_marker l)) (split_nl section)))"

text \<open>
  An operation sends a request when the provider's rejection of that request is what the
  operation reports, and when nothing but the provider's answer to that request matters to
  its outcome. A provider that rejects every request, telling whether the request is the
  expected one, shows which request arrives.
\<close>

definition sends :: "(provider \<Rightarrow> error + string) \<Rightarrow> GenerateContentParameters \<Rightarrow> bool" where
  "sends operation request =
     ((\<forall>generateContent reason.
         generateContent request = Inl reason \<longrightarrow>
         operation generateContent = Inl (Rejected reason)) \<and>
      (\<forall>generateContent generateContent'.
         generateContent request = generateContent' request \<longrightarrow>
         operation generateContent = operation generateContent'))"

definition rejecting_provider :: "(GenerateContentParameters \<Rightarrow> bool) \<Rightarrow> provider" where
  "rejecting_provider expected =
     (\<lambda>request. if expected request then Inl ''as expected'' else Inl ''another request'')"

section \<open>The image operations\<close>

subsection \<open>Auxiliary facts\<close>

lemma startsWith_prefix: "startsWith s t \<longleftrightarrow> prefix t s"
  by (induction s t rule: startsWith.induct) auto

lemma replace_data_prefix_png: "replace_data_prefix (''data:image/png;base64,'' @ p) = p"
  by (simp add: replace_data_prefix_def)

lemma replace_data_prefix_jpeg: "replace_data_prefix (''data:image/jpeg;base64,'' @ p) = p"
  by (simp add: replace_data_prefix_def)

lemma replace_data_prefix_jpg: "replace_data_prefix (''data:image/jpg;base64,'' @ p) = p"
  by (simp add: replace_data_prefix_def)

lemma replace_data_prefix_none:
  assumes "\<not> prefix ''data:image/png;base64,'' s"
    and "\<not> prefix ''data:image/jpeg;base64,'' s"
    and "\<not> prefix ''data:image/jpg;base64,'' s"
  shows "replace_data_prefix s = s"
proof (cases "prefix ''data:image/'' s")
  case False
  then show ?thesis by (simp add: replace_data_prefix_def startsWith_prefix)
next
  case True
  then obtain r where s: "s = ''data:image/'' @ r" by (auto elim: prefixE)
  have "\<not> prefix ''png;base64,'' r" "\<not> prefix ''jpeg;base64,'' r" "\<not> prefix ''jpg;base64,'' r"
    using assms unfolding s by simp_all
  then show ?thesis
    unfolding s by (simp add: replace_data_prefix_def startsWith_prefix)
qed

lemma attached_images_fix:
  "attached_images (fixInfographicImage_request img instr) =
     [\<lparr>mimeType = Some ''image/jpeg'', data = Some (replace_data_prefix img)\<rparr>]"
  by (simp add: attached_images_def fixInfographicImage_request_def Let_def List.map_filter_simps)

lemma attached_images_edit:
  "attached_images (editInfographicImage_request img instr) =
     [\<lparr>mimeType = Some ''image/jpeg'', data = Some (replace_data_prefix img)\<rparr>]"
  by (simp add: attached_images_def editInfographicImage_request_def Let_def List.map_filter_simps)

lemma fix_sends:
  "sends (\<lambda>generateContent. fixInfographicImage generateContent img instr)
     (fixInfographicImage_request img instr)"
  by (simp add: sends_def fixInfographicImage_def)

lemma edit_sends:
  "sends (\<lambda>generateContent. editInfographicImage generateContent img instr)
     (editInfographicImage_request img instr)"
  by (simp add: sends_def editInfographicImage_def)

lemma sends_rejecting_provider:
  "sends operation request \<Longrightarrow> expected request \<Longrightarrow>
     operation (rejecting_provider expected) = Inl (Rejected ''as expected'')"
  by (simp add: sends_def rejecting_provider_def)

lemma first_inline_payload_none:
  "first_inline_payload ps = None \<longleftrightarrow>
     \<not> (\<exists>part \<in> set ps. \<exists>b d. inlineData part = Some b \<and> data b = Some d \<and> d \<noteq> [])"
  by (induction ps) (auto simp: inline_payload_def split: option.splits if_splits)

lemma inline_payload_None_iff:
  "inline_payload q = None \<longleftrightarrow>
     (\<forall>b d. inlineData q = Some b \<and> data b = Some d \<longrightarrow> d = [])"
  by (auto simp: inline_payload_def split: option.splits)

lemma inline_payload_Some:
  "inlineData part = Some b \<Longrightarrow> data b = Some d \<Longrightarrow> d \<noteq> [] \<Longrightarrow> inline_payload part = Some d"
  by (simp add: inline_payload_def)

lemma first_inline_payload_skip:
  "\<forall>q \<in> set pre. inline_payload q = None \<Longrightarrow> inline_payload part = Some d \<Longrightarrow>
     first_inline_payload (pre @ part # post) = Some d"
  by (induction pre) simp_all

lemma first_inline_payload_first:
  assumes "\<forall>q \<in> set pre. \<forall>b' d'. inlineData q = Some b' \<and> data b' = Some d' \<longrightarrow> d' = []"
    and "inlineData part = Some b" "data b = Some d" "d \<noteq> []"
  shows "first_inline_payload (pre @ part # post) = Some d"
proof (rule first_inline_payload_skip)
  show "\<forall>q \<in> set pre. inline_payload q = None"
    using assms(1) unfolding inline_payload_None_iff .
  show "inline_payload part = Some d"
    using assms(2-4) by (rule inline_payload_Some)
qed

lemma image_outcome_present:
  assumes r: "result = (case first_inline_payload (response_parts response) of
                          Some d \<Rightarrow> Inr (''data:image/png;base64,'' @ d)
                        | None \<Rightarrow> Inl (Error msg))"
    and s: "candidates response = Some (c # cs)" "content c = Some ct" "parts ct = Some ps"
  shows "(result = Inl (Error msg) \<longleftrightarrow>
            \<not> (\<exists>part \<in> set ps. \<exists>b d. inlineData part = Some b \<and> data b = Some d \<and> d \<noteq> [])) \<and>
         (\<forall>pre part post b d.
            ps = pre @ part # post \<and>
            (\<forall>q \<in> set pre. \<forall>b' d'. inlineData q = Some b' \<and> data b' = Some d' \<longrightarrow> d' = []) \<and>
            inlineData part = Some b \<and> data b = Some d \<and> d \<noteq> [] \<longrightarrow>
            result = Inr (''data:image/png;base64,'' @ d))"
proof -
  have ps: "response_parts response = ps"
    using s by (simp add: response_parts_def)
  have a: "result = Inl (Error msg) \<longleftrightarrow>
      \<not> (\<exists>part \<in> set ps. \<exists>b d. inlineData part = Some b \<and> data b = Some d \<and> d \<noteq> [])"
    unfolding r ps first_inline_payload_none [symmetric]
    by (cases "first_inline_payload ps") simp_all
  have b: "result = Inr (''data:image/png;base64,'' @ d)"
    if "ps = pre @ part # post"
      and "\<forall>q \<in> set pre. \<forall>b' d'. inlineData q = Some b' \<and> data b' = Some d' \<longrightarrow> d' = []"
      and "inlineData part = Some b" "data b = Some d" "d \<noteq> []"
    for pre part post b d
  proof -
    have "first_inline_payload ps = Some d"
      unfolding that(1) using that(2-5) by (rule first_inline_payload_first)
    then show ?thesis
      unfolding r ps by simp
  qed
  from a b show ?thesis by blast
qed

lemma image_outcome_absent:
  assumes r: "result = (case first_inline_payload (response_parts response) of
                          Some d \<Rightarrow> Inr (''data:image/png;base64,'' @ d)
                        | None \<Rightarrow> Inl (Error msg))"
    and s: "candidates response = None \<or> candidates response = Some [] \<or>
            (\<exists>c cs. candidates response = Some (c # cs) \<and>
               (content c = None \<or> (\<exists>ct. content c = Some ct \<and> parts ct = None)))"
  shows "result = Inl (Error msg)"
proof -
  from s have "response_parts response = []"
    by (auto simp: response_parts_def)
  then show ?thesis
    unfolding r by simp
qed

subsection \<open>Sampling parameters\<close>

text \<open>
  C2. The claim is that all three image operations send the same fixed sampling
  parameters. What the requests carry: \<open>generateInfographicImage\<close> and
  \<open>editInfographicImage\<close> send the configuration \<open>temperature 0.4, topK 32, topP 0.95\<close>,
  and \<open>fixInfographicImage\<close> sends a request with no configuration at all, for every
  image and every correction.
\<close>

theorem sampling_parameters_of_requests:
  "config (generateInfographicImage_request prompt) =
     Some \<lparr>temperature = Some 0.4, topK = Some 32, topP = Some 0.95, tools = None\<rparr> \<and>
   config (editInfographicImage_request img editInstruction) =
     Some \<lparr>temperature = Some 0.4, topK = Some 32, topP = Some 0.95, tools = None\<rparr> \<and>
   config (fixInfographicImage_request img correctionPrompt) = None"
  by (simp add: generateInfographicImage_request_def editInfographicImage_request_def
      fixInfographicImage_request_def Let_def)


subsection \<open>The verification stub\<close>

text \<open>
  C10. For every image, topic, level, style and language \<open>verifyInfographicAccuracy\<close>
  returns the same fixed result, whose \<open>isAccurate\<close> is true: the result of one call equals
  the result of any other call, whatever the arguments.
\<close>

theorem verifyInfographicAccuracy_fixed:
  "verifyInfographicAccuracy imageBase64 topic level style language =
     \<lparr>isAccurate = True, critique = ''Verification bypassed.''\<rparr> \<and>
   isAccurate (verifyInfographicAccuracy imageBase64 topic level style language) \<and>
   verifyInfographicAccuracy imageBase64 topic level style language =
     verifyInfographicAccuracy imageBase64' topic' level' style' language'"
  by (simp add: verifyInfographicAccuracy_def)

subsection \<open>The attached image\<close>

text \<open>
  C9. For every input image and instruction, \<open>fixInfographicImage\<close> and
  \<open>editInfographicImage\<close> each send the provider a request that carries exactly one inline
  image, labelled \<open>image/jpeg\<close>, whatever the prefix of the input declares; an image given
  with the prefix \<open>data:image/png;base64,\<close> is sent as its bare payload labelled
  \<open>image/jpeg\<close>.
\<close>

theorem resubmitted_as_jpeg:
  "(\<exists>request. sends (\<lambda>generateContent. fixInfographicImage generateContent img correctionPrompt)
        request \<and>
      map mimeType (attached_images request) = [Some ''image/jpeg'']) \<and>
   (\<exists>request. sends (\<lambda>generateContent. editInfographicImage generateContent img editInstruction)
        request \<and>
      map mimeType (attached_images request) = [Some ''image/jpeg'']) \<and>
   (\<exists>request. sends (\<lambda>generateContent. fixInfographicImage generateContent
                          (''data:image/png;base64,'' @ payload) correctionPrompt) request \<and>
      attached_images request = [\<lparr>mimeType = Some ''image/jpeg'', data = Some payload\<rparr>]) \<and>
   (\<exists>request. sends (\<lambda>generateContent. editInfographicImage generateContent
                          (''data:image/png;base64,'' @ payload) editInstruction) request \<and>
      attached_images request = [\<lparr>mimeType = Some ''image/jpeg'', data = Some payload\<rparr>])"
proof (intro conjI)
  show "\<exists>request. sends (\<lambda>generateContent. fixInfographicImage generateContent img correctionPrompt)
        request \<and> map mimeType (attached_images request) = [Some ''image/jpeg'']"
    using fix_sends [of img correctionPrompt]
    by (intro exI [of _ "fixInfographicImage_request img correctionPrompt"])
       (simp add: attached_images_fix)
  show "\<exists>request. sends (\<lambda>generateContent. editInfographicImage generateContent img editInstruction)
        request \<and> map mimeType (attached_images request) = [Some ''image/jpeg'']"
    using edit_sends [of img editInstruction]
    by (intro exI [of _ "editInfographicImage_request img editInstruction"])
       (simp add: attached_images_edit)
  have p: "replace_data_prefix (''data:image/png;base64,'' @ payload) = payload"
    by (rule replace_data_prefix_png)
  show "\<exists>request. sends (\<lambda>generateContent. fixInfographicImage generateContent
                          (''data:image/png;base64,'' @ payload) correctionPrompt) request \<and>
      attached_images request = [\<lparr>mimeType = Some ''image/jpeg'', data = Some payload\<rparr>]"
    using fix_sends [of "''data:image/png;base64,'' @ payload" correctionPrompt]
    by (intro exI [of _ "fixInfographicImage_request (''data:image/png;base64,'' @ payload)
                           correctionPrompt"])
       (simp only: attached_images_fix p simp_thms)
  show "\<exists>request. sends (\<lambda>generateContent. editInfographicImage generateContent
                          (''data:image/png;base64,'' @ payload) editInstruction) request \<and>
      attached_images request = [\<lparr>mimeType = Some ''image/jpeg'', data = Some payload\<rparr>]"
    using edit_sends [of "''data:image/png;base64,'' @ payload" editInstruction]
    by (intro exI [of _ "editInfographicImage_request (''data:image/png;base64,'' @ payload)
                           editInstruction"])
       (simp only: attached_images_edit p simp_thms)
qed

theorem resubmitted_as_jpeg_witness:
  "fixInfographicImage
     (rejecting_provider (\<lambda>request. attached_images request =
        [\<lparr>mimeType = Some ''image/jpeg'', data = Some ''QUJD''\<rparr>]))
     ''data:image/png;base64,QUJD'' ''fix the title'' = Inl (Rejected ''as expected'') \<and>
   editInfographicImage
     (rejecting_provider (\<lambda>request. attached_images request =
        [\<lparr>mimeType = Some ''image/jpeg'', data = Some ''QUJD''\<rparr>]))
     ''data:image/png;base64,QUJD'' ''make it blue'' = Inl (Rejected ''as expected'')"
proof -
  note t = resubmitted_as_jpeg [where payload = "''QUJD''" and correctionPrompt = "''fix the title''"
      and editInstruction = "''make it blue''"]
  from t [THEN conjunct2, THEN conjunct2, THEN conjunct1] obtain request where
    "sends (\<lambda>generateContent. fixInfographicImage generateContent
              (''data:image/png;base64,'' @ ''QUJD'') ''fix the title'') request"
    "attached_images request = [\<lparr>mimeType = Some ''image/jpeg'', data = Some ''QUJD''\<rparr>]"
    by (elim exE conjE)
  then have a: "fixInfographicImage
     (rejecting_provider (\<lambda>request. attached_images request =
        [\<lparr>mimeType = Some ''image/jpeg'', data = Some ''QUJD''\<rparr>]))
     (''data:image/png;base64,'' @ ''QUJD'') ''fix the title'' = Inl (Rejected ''as expected'')"
    by (rule sends_rejecting_provider)
  from t [THEN conjunct2, THEN conjunct2, THEN conjunct2] obtain request where
    "sends (\<lambda>generateContent. editInfographicImage generateContent
              (''data:image/png;base64,'' @ ''QUJD'') ''make it blue'') request"
    "attached_images request = [\<lparr>mimeType = Some ''image/jpeg'', data = Some ''QUJD''\<rparr>]"
    by (elim exE conjE)
  then have b: "editInfographicImage
     (rejecting_provider (\<lambda>request. attached_images request =
        [\<lparr>mimeType = Some ''image/jpeg'', data = Some ''QUJD''\<rparr>]))
     (''data:image/png;base64,'' @ ''QUJD'') ''make it blue'' = Inl (Rejected ''as expected'')"
    by (rule sends_rejecting_provider)
  from a b show ?thesis by simp
qed

text \<open>
  C8. When the input image begins with \<open>data:image/png;base64,\<close>,
  \<open>data:image/jpeg;base64,\<close> or \<open>data:image/jpg;base64,\<close>, the request that
  \<open>fixInfographicImage\<close> and \<open>editInfographicImage\<close> send the provider carries what
  follows that prefix, and nothing else is removed; an input that begins with none of the
  three is carried unchanged.
\<close>

theorem data_prefix_stripped:
  "(\<forall>pre \<in> {''data:image/png;base64,'', ''data:image/jpeg;base64,'', ''data:image/jpg;base64,''}.
      (\<exists>request. sends (\<lambda>generateContent. fixInfographicImage generateContent (pre @ payload) instr)
           request \<and>
         map data (attached_images request) = [Some payload]) \<and>
      (\<exists>request. sends (\<lambda>generateContent. editInfographicImage generateContent (pre @ payload) instr)
           request \<and>
         map data (attached_images request) = [Some payload])) \<and>
   (\<not> prefix ''data:image/png;base64,'' img \<and> \<not> prefix ''data:image/jpeg;base64,'' img \<and>
    \<not> prefix ''data:image/jpg;base64,'' img \<longrightarrow>
      (\<exists>request. sends (\<lambda>generateContent. fixInfographicImage generateContent img instr) request \<and>
         map data (attached_images request) = [Some img]) \<and>
      (\<exists>request. sends (\<lambda>generateContent. editInfographicImage generateContent img instr) request \<and>
         map data (attached_images request) = [Some img]))"
proof -
  have f: "\<exists>request. sends (\<lambda>generateContent. fixInfographicImage generateContent i instr) request \<and>
         map data (attached_images request) = [Some p]"
    if "replace_data_prefix i = p" for i p
    using fix_sends [of i instr] that
    by (intro exI [of _ "fixInfographicImage_request i instr"]) (simp add: attached_images_fix)
  have e: "\<exists>request. sends (\<lambda>generateContent. editInfographicImage generateContent i instr) request \<and>
         map data (attached_images request) = [Some p]"
    if "replace_data_prefix i = p" for i p
    using edit_sends [of i instr] that
    by (intro exI [of _ "editInfographicImage_request i instr"]) (simp add: attached_images_edit)
  have s: "replace_data_prefix (pre @ payload) = payload"
    if "pre \<in> {''data:image/png;base64,'', ''data:image/jpeg;base64,'', ''data:image/jpg;base64,''}"
    for pre
    using that replace_data_prefix_png replace_data_prefix_jpeg replace_data_prefix_jpg
    by auto
  have n: "replace_data_prefix img = img"
    if "\<not> prefix ''data:image/png;base64,'' img \<and> \<not> prefix ''data:image/jpeg;base64,'' img \<and>
        \<not> prefix ''data:image/jpg;base64,'' img"
    using that by (intro replace_data_prefix_none) simp_all
  show ?thesis
  proof (intro conjI ballI impI)
    fix pre :: string
    assume m: "pre \<in> {''data:image/png;base64,'', ''data:image/jpeg;base64,'',
                        ''data:image/jpg;base64,''}"
    show "\<exists>request. sends (\<lambda>generateContent. fixInfographicImage generateContent (pre @ payload) instr)
           request \<and> map data (attached_images request) = [Some payload]"
      by (rule f [OF s [OF m]])
    show "\<exists>request. sends (\<lambda>generateContent. editInfographicImage generateContent (pre @ payload) instr)
           request \<and> map data (attached_images request) = [Some payload]"
      by (rule e [OF s [OF m]])
  next
    assume h: "\<not> prefix ''data:image/png;base64,'' img \<and> \<not> prefix ''data:image/jpeg;base64,'' img \<and>
        \<not> prefix ''data:image/jpg;base64,'' img"
    show "\<exists>request. sends (\<lambda>generateContent. fixInfographicImage generateContent img instr) request \<and>
         map data (attached_images request) = [Some img]"
      by (rule f [OF n [OF h]])
  next
    assume h: "\<not> prefix ''data:image/png;base64,'' img \<and> \<not> prefix ''data:image/jpeg;base64,'' img \<and>
        \<not> prefix ''data:image/jpg;base64,'' img"
    show "\<exists>request. sends (\<lambda>generateContent. editInfographicImage generateContent img instr) request \<and>
         map data (attached_images request) = [Some img]"
      by (rule e [OF n [OF h]])
  qed
qed

theorem data_prefix_stripped_witness:
  "fixInfographicImage
     (rejecting_provider (\<lambda>request. map data (attached_images request) = [Some ''QUJD'']))
     ''data:image/jpeg;base64,QUJD'' ''fix the title'' = Inl (Rejected ''as expected'') \<and>
   editInfographicImage
     (rejecting_provider (\<lambda>request. map data (attached_images request) = [Some ''QUJD'']))
     ''data:image/jpg;base64,QUJD'' ''make it blue'' = Inl (Rejected ''as expected'') \<and>
   fixInfographicImage
     (rejecting_provider (\<lambda>request. map data (attached_images request) =
        [Some ''data:image/gif;base64,QUJD'']))
     ''data:image/gif;base64,QUJD'' ''fix the title'' = Inl (Rejected ''as expected'') \<and>
   editInfographicImage
     (rejecting_provider (\<lambda>request. map data (attached_images request) = [Some ''QUJD'']))
     ''QUJD'' ''make it blue'' = Inl (Rejected ''as expected'')"
proof -
  note tf = data_prefix_stripped [where payload = "''QUJD''" and instr = "''fix the title''"
      and img = "''data:image/gif;base64,QUJD''"]
  note te = data_prefix_stripped [where payload = "''QUJD''" and instr = "''make it blue''"
      and img = "''QUJD''"]
  have "''data:image/jpeg;base64,'' \<in> {''data:image/png;base64,'', ''data:image/jpeg;base64,'',
           ''data:image/jpg;base64,''}"
    by simp
  from tf [THEN conjunct1, THEN bspec, OF this, THEN conjunct1] obtain request where
    "sends (\<lambda>generateContent. fixInfographicImage generateContent
              (''data:image/jpeg;base64,'' @ ''QUJD'') ''fix the title'') request"
    "map data (attached_images request) = [Some ''QUJD'']"
    by (elim exE conjE)
  then have a: "fixInfographicImage
     (rejecting_provider (\<lambda>request. map data (attached_images request) = [Some ''QUJD'']))
     (''data:image/jpeg;base64,'' @ ''QUJD'') ''fix the title'' = Inl (Rejected ''as expected'')"
    by (rule sends_rejecting_provider)
  have "''data:image/jpg;base64,'' \<in> {''data:image/png;base64,'', ''data:image/jpeg;base64,'',
           ''data:image/jpg;base64,''}"
    by simp
  from te [THEN conjunct1, THEN bspec, OF this, THEN conjunct2] obtain request where
    "sends (\<lambda>generateContent. editInfographicImage generateContent
              (''data:image/jpg;base64,'' @ ''QUJD'') ''make it blue'') request"
    "map data (attached_images request) = [Some ''QUJD'']"
    by (elim exE conjE)
  then have b: "editInfographicImage
     (rejecting_provider (\<lambda>request. map data (attached_images request) = [Some ''QUJD'']))
     (''data:image/jpg;base64,'' @ ''QUJD'') ''make it blue'' = Inl (Rejected ''as expected'')"
    by (rule sends_rejecting_provider)
  have ng: "\<not> prefix ''data:image/png;base64,'' ''data:image/gif;base64,QUJD'' \<and>
            \<not> prefix ''data:image/jpeg;base64,'' ''data:image/gif;base64,QUJD'' \<and>
            \<not> prefix ''data:image/jpg;base64,'' ''data:image/gif;base64,QUJD''"
    by simp
  from tf [THEN conjunct2, rule_format, OF ng, THEN conjunct1] obtain request where
    "sends (\<lambda>generateContent. fixInfographicImage generateContent
              ''data:image/gif;base64,QUJD'' ''fix the title'') request"
    "map data (attached_images request) = [Some ''data:image/gif;base64,QUJD'']"
    by (elim exE conjE)
  then have c: "fixInfographicImage
     (rejecting_provider (\<lambda>request. map data (attached_images request) =
        [Some ''data:image/gif;base64,QUJD'']))
     ''data:image/gif;base64,QUJD'' ''fix the title'' = Inl (Rejected ''as expected'')"
    by (rule sends_rejecting_provider)
  have nq: "\<not> prefix ''data:image/png;base64,'' ''QUJD'' \<and>
            \<not> prefix ''data:image/jpeg;base64,'' ''QUJD'' \<and>
            \<not> prefix ''data:image/jpg;base64,'' ''QUJD''"
    by simp
  from te [THEN conjunct2, rule_format, OF nq, THEN conjunct2] obtain request where
    "sends (\<lambda>generateContent. editInfographicImage generateContent ''QUJD'' ''make it blue'') request"
    "map data (attached_images request) = [Some ''QUJD'']"
    by (elim exE conjE)
  then have d: "editInfographicImage
     (rejecting_provider (\<lambda>request. map data (attached_images request) = [Some ''QUJD'']))
     ''QUJD'' ''make it blue'' = Inl (Rejected ''as expected'')"
    by (rule sends_rejecting_provider)
  from a b c d show ?thesis by simp
qed

subsection \<open>The returned image\<close>

text \<open>
  C3. Whatever response the provider gives to the request of \<open>generateInfographicImage\<close>,
  \<open>editInfographicImage\<close> or \<open>fixInfographicImage\<close>, the operation raises its
  missing-output error exactly when no content part of the first candidate has inline data
  with a non-empty payload, and otherwise returns \<open>data:image/png;base64,\<close> followed by the
  payload of the first part that has one; a response without candidates, content or parts
  raises the error.
\<close>

theorem image_operations_result:
  assumes "(generateContent (generateInfographicImage_request prompt) = Inr response \<and>
            result = generateInfographicImage generateContent prompt \<and>
            msg = ''Failed to generate image'') \<or>
           (generateContent (editInfographicImage_request img instr) = Inr response \<and>
            result = editInfographicImage generateContent img instr \<and>
            msg = ''Failed to edit image'') \<or>
           (generateContent (fixInfographicImage_request img instr) = Inr response \<and>
            result = fixInfographicImage generateContent img instr \<and>
            msg = ''Failed to fix image'')"
  shows "(\<forall>c cs ct ps.
            candidates response = Some (c # cs) \<and> content c = Some ct \<and> parts ct = Some ps \<longrightarrow>
            (result = Inl (Error msg) \<longleftrightarrow>
               \<not> (\<exists>part \<in> set ps. \<exists>b d.
                     inlineData part = Some b \<and> data b = Some d \<and> d \<noteq> [])) \<and>
            (\<forall>pre part post b d.
               ps = pre @ part # post \<and>
               (\<forall>q \<in> set pre. \<forall>b' d'.
                  inlineData q = Some b' \<and> data b' = Some d' \<longrightarrow> d' = []) \<and>
               inlineData part = Some b \<and> data b = Some d \<and> d \<noteq> [] \<longrightarrow>
               result = Inr (''data:image/png;base64,'' @ d))) \<and>
         (candidates response = None \<or> candidates response = Some [] \<or>
          (\<exists>c cs. candidates response = Some (c # cs) \<and>
             (content c = None \<or> (\<exists>ct. content c = Some ct \<and> parts ct = None))) \<longrightarrow>
          result = Inl (Error msg))"
proof -
  from assms have r: "result = (case first_inline_payload (response_parts response) of
                          Some d \<Rightarrow> Inr (''data:image/png;base64,'' @ d)
                        | None \<Rightarrow> Inl (Error msg))"
    by (auto simp: generateInfographicImage_def editInfographicImage_def
        fixInfographicImage_def)
  show ?thesis
    using image_outcome_present [OF r] image_outcome_absent [OF r] by blast
qed

theorem image_operations_result_witness:
  "generateInfographicImage
     (simulated_provider (image_response
        [\<lparr>part_text = Some ''Here it is'', inlineData = None\<rparr>,
         \<lparr>part_text = None,
          inlineData = Some \<lparr>mimeType = Some ''image/png'', data = Some ''''\<rparr>\<rparr>,
         \<lparr>part_text = None,
          inlineData = Some \<lparr>mimeType = Some ''image/png'', data = Some ''QUJD''\<rparr>\<rparr>,
         \<lparr>part_text = None,
          inlineData = Some \<lparr>mimeType = Some ''image/png'', data = Some ''REVG''\<rparr>\<rparr>]))
     ''a prompt'' = Inr ''data:image/png;base64,QUJD'' \<and>
   editInfographicImage
     (simulated_provider (image_response [\<lparr>part_text = Some ''Sorry'', inlineData = None\<rparr>]))
     ''QUJD'' ''make it blue'' = Inl (Error ''Failed to edit image'') \<and>
   fixInfographicImage
     (simulated_provider \<lparr>response_text = None, candidates = None\<rparr>)
     ''QUJD'' ''fix the title'' = Inl (Error ''Failed to fix image'')"
proof -
  let ?t = "\<lparr>part_text = Some ''Here it is'', inlineData = None\<rparr>"
  let ?e = "\<lparr>part_text = None,
          inlineData = Some \<lparr>mimeType = Some ''image/png'', data = Some ''''\<rparr>\<rparr>"
  let ?p = "\<lparr>part_text = None,
          inlineData = Some \<lparr>mimeType = Some ''image/png'', data = Some ''QUJD''\<rparr>\<rparr>"
  let ?q = "\<lparr>part_text = None,
          inlineData = Some \<lparr>mimeType = Some ''image/png'', data = Some ''REVG''\<rparr>\<rparr>"
  let ?s = "\<lparr>part_text = Some ''Sorry'', inlineData = None\<rparr>"
  let ?a = "image_response [?t, ?e, ?p, ?q]"
  let ?b = "image_response [?s]"
  let ?c = "\<lparr>response_text = None, candidates = None\<rparr>"
  let ?ra = "generateInfographicImage (simulated_provider ?a) ''a prompt''"
  let ?rb = "editInfographicImage (simulated_provider ?b) ''QUJD'' ''make it blue''"
  let ?rc = "fixInfographicImage (simulated_provider ?c) ''QUJD'' ''fix the title''"
  let ?ca = "\<lparr>content = Some \<lparr>parts = Some [?t, ?e, ?p, ?q]\<rparr>, groundingMetadata = None\<rparr>"
  let ?cb = "\<lparr>content = Some \<lparr>parts = Some [?s]\<rparr>, groundingMetadata = None\<rparr>"
  have ha: "simulated_provider ?a (generateInfographicImage_request ''a prompt'') = Inr ?a \<and>
        ?ra = ?ra \<and> ''Failed to generate image'' = ''Failed to generate image''"
    by (simp add: simulated_provider_def)
  have sa: "candidates ?a = Some (?ca # []) \<and> content ?ca = Some \<lparr>parts = Some [?t, ?e, ?p, ?q]\<rparr> \<and>
        parts \<lparr>parts = Some [?t, ?e, ?p, ?q]\<rparr> = Some [?t, ?e, ?p, ?q]"
    by (simp add: image_response_def)
  note ta = image_operations_result [where generateContent = "simulated_provider ?a"
        and prompt = "''a prompt''" and response = ?a and result = ?ra
        and msg = "''Failed to generate image''", OF disjI1, OF ha,
        THEN conjunct1, rule_format, OF sa, THEN conjunct2, rule_format,
        of "[?t, ?e]" ?p "[?q]" "\<lparr>mimeType = Some ''image/png'', data = Some ''QUJD''\<rparr>" "''QUJD''"]
  have a: "?ra = Inr ''data:image/png;base64,QUJD''"
    using ta by simp
  have hb: "simulated_provider ?b (editInfographicImage_request ''QUJD'' ''make it blue'') = Inr ?b \<and>
        ?rb = ?rb \<and> ''Failed to edit image'' = ''Failed to edit image''"
    by (simp add: simulated_provider_def)
  have sb: "candidates ?b = Some (?cb # []) \<and> content ?cb = Some \<lparr>parts = Some [?s]\<rparr> \<and>
        parts \<lparr>parts = Some [?s]\<rparr> = Some [?s]"
    by (simp add: image_response_def)
  note tb = image_operations_result [where generateContent = "simulated_provider ?b"
        and img = "''QUJD''" and instr = "''make it blue''" and response = ?b and result = ?rb
        and msg = "''Failed to edit image''", OF disjI2, OF disjI1, OF hb,
        THEN conjunct1, rule_format, OF sb, THEN conjunct1]
  have b: "?rb = Inl (Error ''Failed to edit image'')"
    using tb by simp
  have hc: "simulated_provider ?c (fixInfographicImage_request ''QUJD'' ''fix the title'') = Inr ?c \<and>
        ?rc = ?rc \<and> ''Failed to fix image'' = ''Failed to fix image''"
    by (simp add: simulated_provider_def)
  note tc = image_operations_result [where generateContent = "simulated_provider ?c"
        and img = "''QUJD''" and instr = "''fix the title''" and response = ?c and result = ?rc
        and msg = "''Failed to fix image''", OF disjI2, OF disjI2, OF hc, THEN conjunct2]
  have c: "?rc = Inl (Error ''Failed to fix image'')"
    using tc by simp
  from a b c show ?thesis by (intro conjI)
qed

section \<open>The research operation\<close>

subsection \<open>Citations\<close>

lemma push_chunk_citation:
  "push_chunk acc chunk = acc @ (case chunk_citation chunk of None \<Rightarrow> [] | Some item \<Rightarrow> [item])"
  by (simp add: push_chunk_def chunk_citation_def split: option.splits)

lemma foldl_push_chunk:
  "foldl push_chunk acc chunks = acc @ List.map_filter chunk_citation chunks"
  by (induction chunks arbitrary: acc)
     (simp_all add: push_chunk_citation List.map_filter_simps split: option.splits)

lemma map_fst_Map_set:
  "map fst (Map_set m k v) = (if k \<in> fst ` set m then map fst m else map fst m @ [k])"
  by (induction m k v rule: Map_set.induct) auto

lemma map_of_Map_set: "map_of (Map_set m k v) = (map_of m)(k \<mapsto> v)"
  by (induction m k v rule: Map_set.induct) (auto simp: fun_upd_twist)

lemma new_Map_snoc: "new_Map (es @ [(k, v)]) = Map_set (new_Map es) k v"
  by (simp add: new_Map_def)

lemma map_fst_new_Map: "map fst (new_Map es) = rev (remdups (rev (map fst es)))"
proof (induction es rule: rev_induct)
  case Nil
  then show ?case by (simp add: new_Map_def)
next
  case (snoc e es)
  obtain k v where e: "e = (k, v)" by (cases e)
  have "fst ` set (new_Map es) = set (map fst (new_Map es))" by simp
  also have "\<dots> = fst ` set es" by (simp add: snoc.IH)
  finally show ?case
    by (simp add: e new_Map_snoc map_fst_Map_set snoc.IH)
qed

lemma map_of_new_Map: "map_of (new_Map es) = map_of (rev es)"
proof (induction es rule: rev_induct)
  case Nil
  then show ?case by (simp add: new_Map_def)
next
  case (snoc e es)
  obtain k v where e: "e = (k, v)" by (cases e)
  show ?case by (simp add: e new_Map_snoc map_of_Map_set snoc.IH)
qed

lemma distinct_new_Map: "distinct (map fst (new_Map es))"
  by (simp add: map_fst_new_Map)

lemma map_of_rev_last:
  "map_of (rev (map (\<lambda>x. (f x, x)) xs)) k = Some y \<Longrightarrow>
     f y = k \<and> y = last (filter (\<lambda>x. f x = k) xs)"
proof (induction xs rule: rev_induct)
  case Nil
  then show ?case by simp
next
  case (snoc x xs)
  then show ?case by (auto split: if_splits)
qed

lemma new_Map_lookup:
  assumes "(k, item) \<in> set (new_Map (map (\<lambda>x. (f x, x)) xs))"
  shows "map_of (rev (map (\<lambda>x. (f x, x)) xs)) k = Some item"
proof -
  from assms have "map_of (new_Map (map (\<lambda>x. (f x, x)) xs)) k = Some item"
    by (rule map_of_is_SomeI [OF distinct_new_Map])
  then show ?thesis
    by (simp only: map_of_new_Map)
qed

lemma new_Map_entry_key:
  "(k, item) \<in> set (new_Map (map (\<lambda>x. (f x, x)) xs)) \<Longrightarrow> f item = k"
  by (drule new_Map_lookup, drule map_of_rev_last) (rule conjunct1)

lemma new_Map_entry_last:
  "(k, item) \<in> set (new_Map (map (\<lambda>x. (f x, x)) xs)) \<Longrightarrow>
     item = last (filter (\<lambda>x. f x = k) xs)"
  by (drule new_Map_lookup, drule map_of_rev_last) (rule conjunct2)

lemma uniqueResults_urls:
  "map url (uniqueResults items) = rev (remdups (rev (map url items)))"
proof -
  let ?m = "new_Map (map (\<lambda>item. (url item, item)) items)"
  have "url (snd e) = fst e" if "e \<in> set ?m" for e
    using that new_Map_entry_key [of "fst e" "snd e" url items] by simp
  then have "map (\<lambda>e. url (snd e)) ?m = map fst ?m"
    by (intro map_cong refl)
  then have "map url (uniqueResults items) = map fst ?m"
    by (simp only: uniqueResults_def Map_values_def map_map comp_def)
  also have "\<dots> = rev (remdups (rev (map url items)))"
    by (simp add: map_fst_new_Map comp_def)
  finally show ?thesis .
qed

lemma uniqueResults_last:
  assumes "item \<in> set (uniqueResults items)"
  shows "item = last (filter (\<lambda>x. url x = url item) items)"
proof -
  from assms obtain k where k: "(k, item) \<in> set (new_Map (map (\<lambda>x. (url x, x)) items))"
    unfolding uniqueResults_def Map_values_def by auto
  have "url item = k"
    using k by (rule new_Map_entry_key)
  moreover have "item = last (filter (\<lambda>x. url x = k) items)"
    using k by (rule new_Map_entry_last)
  ultimately show ?thesis
    by (simp only:)
qed

lemma extract_searchResults_citations:
  "extract_searchResults response =
     (case groundingChunks_of response of
        None \<Rightarrow> []
      | Some chunks \<Rightarrow> List.map_filter chunk_citation chunks)"
  by (simp add: extract_searchResults_def foldl_push_chunk split: option.splits)

text \<open>
  C1, as the code has it. Whatever response the provider gives, the \<open>searchResults\<close>
  returned by \<open>researchTopicForPrompt\<close> hold exactly one citation for each URL among the
  chunks with a non-empty uri and a non-empty title, in the order in which the URLs first
  occur, and the citation kept for a URL is the one of the last chunk with that URL: the
  \<open>Map\<close> keeps the place of the first insertion and the value of the last.
\<close>

theorem searchResults_last_title:
  assumes "generateContent (research_request topic level style language) = Inr response"
  shows "\<exists>r. researchTopicForPrompt generateContent topic level style language = Inr r \<and>
           map url (searchResults r) = rev (remdups (rev (map url (citations response)))) \<and>
           distinct (map url (searchResults r)) \<and>
           set (map url (searchResults r)) = set (map url (citations response)) \<and>
           (\<forall>item \<in> set (searchResults r).
              item = last (filter (\<lambda>c. url c = url item) (citations response)))"
proof -
  let ?r = "research_result topic level style response"
  have sr: "searchResults ?r = uniqueResults (citations response)"
    by (simp add: research_result_def Let_def citations_def extract_searchResults_citations)
  have urls: "map url (searchResults ?r) = rev (remdups (rev (map url (citations response))))"
    unfolding sr by (rule uniqueResults_urls)
  have "distinct (map url (searchResults ?r))"
    unfolding urls by simp
  moreover have "set (map url (searchResults ?r)) = set (map url (citations response))"
    unfolding urls by simp
  moreover have "\<forall>item \<in> set (searchResults ?r).
      item = last (filter (\<lambda>c. url c = url item) (citations response))"
    unfolding sr using uniqueResults_last by blast
  moreover have "researchTopicForPrompt generateContent topic level style language = Inr ?r"
    using assms by (simp add: researchTopicForPrompt_def)
  ultimately show ?thesis
    using urls by blast
qed

theorem searchResults_last_title_witness:
  "\<exists>r. researchTopicForPrompt
         (simulated_provider (grounded_response None
            [web_chunk ''u1'' ''T1'', web_chunk ''u1'' ''T2'', web_chunk ''u2'' ''T3'',
             web_chunk '''' ''T4'', \<lparr>web = None\<rparr>]))
         ''cats'' ''Expert'' ''Sketch'' ''English'' = Inr r \<and>
       searchResults r = [\<lparr>title = ''T2'', url = ''u1''\<rparr>, \<lparr>title = ''T3'', url = ''u2''\<rparr>]"
proof -
  let ?resp = "grounded_response None
            [web_chunk ''u1'' ''T1'', web_chunk ''u1'' ''T2'', web_chunk ''u2'' ''T3'',
             web_chunk '''' ''T4'', \<lparr>web = None\<rparr>]"
  let ?cited = "[\<lparr>title = ''T1'', url = ''u1''\<rparr>, \<lparr>title = ''T2'', url = ''u1''\<rparr>,
                 \<lparr>title = ''T3'', url = ''u2''\<rparr>]"
  have c: "citations ?resp = ?cited"
    by (simp add: citations_def grounded_response_def groundingChunks_of_def web_chunk_def
        chunk_citation_def List.map_filter_simps)
  have "simulated_provider ?resp (research_request ''cats'' ''Expert'' ''Sketch'' ''English'') = Inr ?resp"
    by (simp add: simulated_provider_def)
  from searchResults_last_title [where generateContent = "simulated_provider ?resp"
      and topic = "''cats''" and level = "''Expert''" and style = "''Sketch''"
      and language = "''English''" and response = ?resp, OF this]
  obtain r where
    r: "researchTopicForPrompt (simulated_provider ?resp) ''cats'' ''Expert'' ''Sketch'' ''English'' = Inr r"
    and u: "map url (searchResults r) = rev (remdups (rev (map url (citations ?resp))))"
    and l: "\<forall>item \<in> set (searchResults r).
              item = last (filter (\<lambda>c. url c = url item) (citations ?resp))"
    by blast
  from u have "map url (searchResults r) = [''u1'', ''u2'']"
    unfolding c by simp
  then obtain a b where ab: "searchResults r = [a, b]" "url a = ''u1''" "url b = ''u2''"
    by (auto simp: map_eq_Cons_conv)
  have "a = last (filter (\<lambda>c. url c = url a) ?cited)"
    using l ab(1) unfolding c by simp
  then have a: "a = \<lparr>title = ''T2'', url = ''u1''\<rparr>"
    unfolding ab(2) by simp
  have "b = last (filter (\<lambda>c. url c = url b) ?cited)"
    using l ab(1) unfolding c by simp
  then have b: "b = \<lparr>title = ''T3'', url = ''u2''\<rparr>"
    unfolding ab(3) by simp
  from r ab(1) a b show ?thesis by simp
qed

text \<open>
  C1 as the specification states it, with the title of the first occurrence, fails on its
  own example: for the chunks \<open>u1/T1\<close>, \<open>u1/T2\<close>, \<open>u2/T3\<close> the entry for \<open>u1\<close> carries
  \<open>T2\<close>, and no entry carries \<open>T1\<close>.
\<close>

theorem first_title_not_retained:
  "researchTopicForPrompt
     (simulated_provider (grounded_response None
        [web_chunk ''u1'' ''T1'', web_chunk ''u1'' ''T2'', web_chunk ''u2'' ''T3'']))
     ''cats'' ''Expert'' ''Sketch'' ''English'' =
   Inr (research_result ''cats'' ''Expert'' ''Sketch'' (grounded_response None
        [web_chunk ''u1'' ''T1'', web_chunk ''u1'' ''T2'', web_chunk ''u2'' ''T3''])) \<and>
   searchResults (research_result ''cats'' ''Expert'' ''Sketch'' (grounded_response None
        [web_chunk ''u1'' ''T1'', web_chunk ''u1'' ''T2'', web_chunk ''u2'' ''T3''])) =
     [\<lparr>title = ''T2'', url = ''u1''\<rparr>, \<lparr>title = ''T3'', url = ''u2''\<rparr>] \<and>
   \<lparr>title = ''T1'', url = ''u1''\<rparr> \<notin> set (searchResults (research_result ''cats'' ''Expert'' ''Sketch''
       (grounded_response None
        [web_chunk ''u1'' ''T1'', web_chunk ''u1'' ''T2'', web_chunk ''u2'' ''T3''])))"
  by (simp add: researchTopicForPrompt_def simulated_provider_def research_result_def Let_def
      grounded_response_def web_chunk_def extract_searchResults_def groundingChunks_of_def
      push_chunk_def uniqueResults_def new_Map_def Map_values_def)

subsection \<open>Occurrences of the quality sentence\<close>

lemma includes_str_sublist: "includes_str s t \<longleftrightarrow> sublist t s"
  by (induction s) (auto simp: startsWith_prefix sublist_Cons_right)

lemma count_occurrences_0: "count_occurrences t s = 0 \<longleftrightarrow> \<not> sublist t s"
  by (induction s) (auto simp: sublist_Cons_right)

lemma count_occurrences_skip:
  "h \<notin> set a \<Longrightarrow> count_occurrences (h # t) (a @ b) = count_occurrences (h # t) b"
  by (induction a) auto

lemma count_occurrences_self:
  assumes "h \<notin> set t"
  shows "count_occurrences (h # t) (h # t) = 1"
proof -
  have "count_occurrences (h # t) (t @ []) = count_occurrences (h # t) []"
    using assms by (rule count_occurrences_skip)
  then show ?thesis by simp
qed

lemma no_straddle:
  assumes h: "h \<notin> set t" and l: "last (h # t) \<noteq> sp" and sp: "sp \<noteq> h"
    and p: "prefix (h # t) (x @ sp # h # t)"
  shows "prefix (h # t) x"
proof (rule ccontr)
  assume n: "\<not> prefix (h # t) x"
  with p obtain us where us: "h # t = x @ us" "prefix us (sp # h # t)"
    by (auto simp: prefix_append)
  from n us(1) have "us \<noteq> []" by auto
  with us(2) obtain us' where us': "us = sp # us'" "prefix us' (h # t)"
    by (cases us) auto
  show False
  proof (cases us')
    case Nil
    with us(1) us'(1) have "h # t = x @ [sp]" by simp
    then have "last (h # t) = sp" by (metis last_snoc)
    with l show False by simp
  next
    case (Cons c cs)
    with us'(2) have c: "c = h" by simp
    have eq: "h # t = x @ sp # h # cs"
      using us(1) us'(1) Cons c by simp
    show False
    proof (cases x)
      case Nil
      with eq sp show False by simp
    next
      case (Cons y ys)
      with eq have "t = ys @ sp # h # cs" by simp
      with h show False by simp
    qed
  qed
qed

lemma count_occurrences_suffixed:
  assumes h: "h \<notin> set t" and l: "last (h # t) \<noteq> sp" and sp: "sp \<noteq> h"
  shows "count_occurrences (h # t) (p @ sp # h # t) = Suc (count_occurrences (h # t) p)"
proof (induction p)
  case Nil
  have "\<not> prefix (h # t) (sp # h # t)"
    using sp by simp
  moreover have "count_occurrences (h # t) (h # t) = 1"
    using h by (rule count_occurrences_self)
  ultimately show ?case
    by (simp only: append_Nil count_occurrences.simps if_False add_0 One_nat_def list.simps if_True)
next
  case (Cons c p)
  have "prefix (h # t) ((c # p) @ sp # h # t) \<longleftrightarrow> prefix (h # t) (c # p)"
    using no_straddle [OF h l sp, of "c # p"] by (auto simp: prefix_append)
  then show ?case
    using Cons by (simp del: prefix_code Cons_prefix_Cons)
qed

lemma quality_sentence_shape:
  "\<exists>t. quality_sentence = CHR ''H'' # t \<and> CHR ''H'' \<notin> set t \<and> last (CHR ''H'' # t) \<noteq> CHR '' ''"
  by (simp add: quality_sentence_def)

lemma count_add_quality_suffix:
  "count_occurrences quality_sentence (add_quality_suffix p) =
     Suc (count_occurrences quality_sentence p)"
proof -
  obtain t where t: "quality_sentence = CHR ''H'' # t" "CHR ''H'' \<notin> set t"
      "last (CHR ''H'' # t) \<noteq> CHR '' ''"
    using quality_sentence_shape by blast
  have "count_occurrences (CHR ''H'' # t) (p @ CHR '' '' # CHR ''H'' # t) =
        Suc (count_occurrences (CHR ''H'' # t) p)"
    using t(2,3) by (rule count_occurrences_suffixed) simp
  then show ?thesis
    by (simp only: add_quality_suffix_def t(1) append_Cons append_Nil)
qed

lemma count_aspect_mandate:
  "count_occurrences quality_sentence (aspect_mandate @ p) = count_occurrences quality_sentence p"
proof -
  obtain t where t: "quality_sentence = CHR ''H'' # t"
    using quality_sentence_shape by blast
  have "CHR ''H'' \<notin> set aspect_mandate"
    by (simp add: aspect_mandate_def)
  then show ?thesis
    unfolding t by (rule count_occurrences_skip)
qed

lemma count_ensure_aspect_ratio:
  "count_occurrences quality_sentence (ensure_aspect_ratio p) = count_occurrences quality_sentence p"
  by (simp only: ensure_aspect_ratio_def count_aspect_mandate if_distrib [of "count_occurrences quality_sentence"] if_cancel)

subsection \<open>The returned record\<close>

lemma researchTopicForPrompt_returns:
  "generateContent (research_request topic level style language) = Inr response \<Longrightarrow>
     researchTopicForPrompt generateContent topic level style language =
       Inr (research_result topic level style response)"
  by (simp add: researchTopicForPrompt_def)

lemma imagePrompt_research_result:
  "imagePrompt (research_result topic level style response) =
     add_quality_suffix (ensure_aspect_ratio
       (initial_imagePrompt topic (getLevelInstruction level) (getStyleInstruction style)
          (text_of response)))"
  by (simp add: research_result_def Let_def)

lemma facts_research_result:
  "facts (research_result topic level style response) = parse_facts (text_of response)"
  by (simp add: research_result_def Let_def)

lemma suffix_add_quality_suffix: "suffix quality_sentence (add_quality_suffix p)"
  unfolding add_quality_suffix_def by (intro suffix_appendI) simp

subsection \<open>The quality sentence\<close>

text \<open>
  C4, as the code has it. Whatever response the provider gives, the \<open>imagePrompt\<close>
  returned by \<open>researchTopicForPrompt\<close> ends with the fixed quality-enhancement sentence,
  appended once; the sentence occurs in the returned prompt once more than in the extracted
  or fallback prompt, so exactly once precisely when that prompt does not contain it.
\<close>

theorem imagePrompt_quality_sentence:
  assumes "generateContent (research_request topic level style language) = Inr response"
  shows "\<exists>r. researchTopicForPrompt generateContent topic level style language = Inr r \<and>
           suffix quality_sentence (imagePrompt r) \<and>
           count_occurrences quality_sentence (imagePrompt r) =
             Suc (count_occurrences quality_sentence
                    (initial_imagePrompt topic (getLevelInstruction level)
                       (getStyleInstruction style) (text_of response))) \<and>
           (count_occurrences quality_sentence (imagePrompt r) = 1 \<longleftrightarrow>
              \<not> sublist quality_sentence
                   (initial_imagePrompt topic (getLevelInstruction level)
                      (getStyleInstruction style) (text_of response)))"
proof -
  let ?r = "research_result topic level style response"
  let ?p = "initial_imagePrompt topic (getLevelInstruction level) (getStyleInstruction style)
              (text_of response)"
  have c: "count_occurrences quality_sentence (imagePrompt ?r) =
           Suc (count_occurrences quality_sentence ?p)"
    by (simp only: imagePrompt_research_result count_add_quality_suffix
        count_ensure_aspect_ratio)
  have "suffix quality_sentence (imagePrompt ?r)"
    by (simp only: imagePrompt_research_result suffix_add_quality_suffix)
  moreover have "count_occurrences quality_sentence (imagePrompt ?r) = 1 \<longleftrightarrow>
                 \<not> sublist quality_sentence ?p"
    unfolding c using count_occurrences_0 [of quality_sentence ?p] by simp
  ultimately show ?thesis
    using c assms by (simp add: researchTopicForPrompt_def)
qed

theorem imagePrompt_quality_sentence_witness:
  "\<exists>r. researchTopicForPrompt (simulated_provider (text_response ''IMAGE_PROMPT: Draw cats''))
          ''cats'' ''Expert'' ''Sketch'' ''English'' = Inr r \<and>
       suffix quality_sentence (imagePrompt r) \<and>
       count_occurrences quality_sentence (imagePrompt r) = 1"
proof -
  let ?resp = "text_response ''IMAGE_PROMPT: Draw cats''"
  have p: "initial_imagePrompt ''cats'' (getLevelInstruction ''Expert'')
             (getStyleInstruction ''Sketch'') (text_of ?resp) = ''Draw cats''"
    by code_simp
  have n: "count_occurrences quality_sentence ''Draw cats'' = 0"
    by code_simp
  have "simulated_provider ?resp (research_request ''cats'' ''Expert'' ''Sketch'' ''English'') =
        Inr ?resp"
    by (simp add: simulated_provider_def)
  from imagePrompt_quality_sentence [where generateContent = "simulated_provider ?resp"
      and topic = "''cats''" and level = "''Expert''" and style = "''Sketch''"
      and language = "''English''" and response = ?resp, OF this]
  obtain r where
    "researchTopicForPrompt (simulated_provider ?resp) ''cats'' ''Expert'' ''Sketch'' ''English'' = Inr r"
    "suffix quality_sentence (imagePrompt r)"
    "count_occurrences quality_sentence (imagePrompt r) =
       Suc (count_occurrences quality_sentence
              (initial_imagePrompt ''cats'' (getLevelInstruction ''Expert'')
                 (getStyleInstruction ''Sketch'') (text_of ?resp)))"
    by blast
  then show ?thesis
    unfolding p n by simp
qed


text \<open>
  C4 as the specification states it, exactly once regardless of the extracted prompt,
  fails when the response's own prompt already holds the sentence: it is then returned
  twice.
\<close>

theorem quality_sentence_twice:
  "researchTopicForPrompt
     (simulated_provider (text_response
        ''IMAGE_PROMPT: A 16:9 poster. High resolution, professional quality, crisp and clear details, well-balanced composition, maximum visual clarity.''))
     ''cats'' ''Expert'' ''Sketch'' ''English'' =
   Inr (research_result ''cats'' ''Expert'' ''Sketch'' (text_response
        ''IMAGE_PROMPT: A 16:9 poster. High resolution, professional quality, crisp and clear details, well-balanced composition, maximum visual clarity.'')) \<and>
   imagePrompt (research_result ''cats'' ''Expert'' ''Sketch'' (text_response
        ''IMAGE_PROMPT: A 16:9 poster. High resolution, professional quality, crisp and clear details, well-balanced composition, maximum visual clarity.'')) =
     ''A 16:9 poster. High resolution, professional quality, crisp and clear details, well-balanced composition, maximum visual clarity. High resolution, professional quality, crisp and clear details, well-balanced composition, maximum visual clarity.'' \<and>
   count_occurrences quality_sentence
     (imagePrompt (research_result ''cats'' ''Expert'' ''Sketch'' (text_response
        ''IMAGE_PROMPT: A 16:9 poster. High resolution, professional quality, crisp and clear details, well-balanced composition, maximum visual clarity.''))) = 2"
proof -
  let ?resp = "text_response
        ''IMAGE_PROMPT: A 16:9 poster. High resolution, professional quality, crisp and clear details, well-balanced composition, maximum visual clarity.''"
  have a: "researchTopicForPrompt (simulated_provider ?resp) ''cats'' ''Expert'' ''Sketch'' ''English'' =
        Inr (research_result ''cats'' ''Expert'' ''Sketch'' ?resp)"
    by (simp add: researchTopicForPrompt_def simulated_provider_def)
  have b: "imagePrompt (research_result ''cats'' ''Expert'' ''Sketch'' ?resp) =
     ''A 16:9 poster. High resolution, professional quality, crisp and clear details, well-balanced composition, maximum visual clarity. High resolution, professional quality, crisp and clear details, well-balanced composition, maximum visual clarity.''"
    by code_simp
  have c: "count_occurrences quality_sentence ''A 16:9 poster. High resolution, professional quality, crisp and clear details, well-balanced composition, maximum visual clarity. High resolution, professional quality, crisp and clear details, well-balanced composition, maximum visual clarity.'' = 2"
    by code_simp
  show ?thesis
    using a b c by (simp only:) 
qed

subsection \<open>The aspect ratio\<close>

lemma ensure_aspect_ratio_sublist:
  "ensure_aspect_ratio p =
     (if \<not> sublist ''16:9'' (toLowerCase p) \<and> \<not> sublist ''widescreen'' (toLowerCase p)
      then aspect_mandate @ p else p)"
  by (simp only: ensure_aspect_ratio_def includes_str_sublist)

subsection \<open>Missing sections\<close>

lemma matches_ci_prefix:
  "matches_ci p s \<longleftrightarrow> prefix (map canonicalize p) (map canonicalize s)"
  by (induction p s rule: matches_ci.induct) auto

lemma after_first_ci_None:
  "after_first_ci p s = None \<longleftrightarrow> \<not> sublist (map canonicalize p) (map canonicalize s)"
  by (induction s) (auto simp: matches_ci_prefix sublist_Cons_right)

lemma canonical_headers:
  "map canonicalize ''FACTS:'' = ''FACTS:''"
  "map canonicalize ''IMAGE_PROMPT:'' = ''IMAGE_PROMPT:''"
  by (simp_all add: canonicalize_def)

lemma factsMatch_None:
  "factsMatch txt = None \<longleftrightarrow> \<not> sublist ''FACTS:'' (map canonicalize txt)"
proof -
  have "after_first_ci ''FACTS:'' txt = None \<longleftrightarrow> \<not> sublist ''FACTS:'' (map canonicalize txt)"
    by (simp only: after_first_ci_None canonical_headers)
  then show ?thesis
    by (cases "after_first_ci ''FACTS:'' txt") (simp_all add: factsMatch_def)
qed

lemma promptMatch_None:
  "promptMatch txt = None \<longleftrightarrow> \<not> sublist ''IMAGE_PROMPT:'' (map canonicalize txt)"
proof -
  have "after_first_ci ''IMAGE_PROMPT:'' txt = None \<longleftrightarrow>
        \<not> sublist ''IMAGE_PROMPT:'' (map canonicalize txt)"
    by (simp only: after_first_ci_None canonical_headers)
  then show ?thesis
    by (cases "after_first_ci ''IMAGE_PROMPT:'' txt") (simp_all add: promptMatch_def)
qed

lemma parse_facts_no_match: "factsMatch txt = None \<Longrightarrow> parse_facts txt = []"
  by (simp add: parse_facts_def trim_def)

lemma sublist_append_right: "sublist xs ys \<Longrightarrow> sublist xs (ys @ zs)"
  by (rule sublist_order.order.trans [OF _ sublist_append_rightI])

lemma toLowerCase_append: "toLowerCase (a @ b) = toLowerCase a @ toLowerCase b"
  by (simp add: toLowerCase_def)

lemma fallback_has_aspect:
  "ensure_aspect_ratio (''Create a detailed 16:9 widescreen format infographic about '' @ rest) =
     ''Create a detailed 16:9 widescreen format infographic about '' @ rest"
proof -
  have "sublist ''16:9'' (toLowerCase ''Create a detailed 16:9 widescreen format infographic about '')"
    by code_simp
  then have "sublist ''16:9''
      (toLowerCase (''Create a detailed 16:9 widescreen format infographic about '' @ rest))"
    unfolding toLowerCase_append by (rule sublist_append_right)
  then show ?thesis
    by (simp only: ensure_aspect_ratio_sublist simp_thms if_False)
qed

lemma imagePrompt_no_match:
  assumes "promptMatch (text_of response) = None"
  shows "imagePrompt (research_result topic level style response) =
     ''Create a detailed 16:9 widescreen format infographic about '' @ topic @ ''. '' @
       getLevelInstruction level @ '' '' @ getStyleInstruction style @ '' '' @ quality_sentence"
proof -
  have "initial_imagePrompt topic (getLevelInstruction level) (getStyleInstruction style)
          (text_of response) =
        ''Create a detailed 16:9 widescreen format infographic about '' @
          (topic @ ''. '' @ getLevelInstruction level @ '' '' @ getStyleInstruction style)"
    using assms by (simp add: initial_imagePrompt_def)
  then show ?thesis
    by (simp only: imagePrompt_research_result fallback_has_aspect add_quality_suffix_def
        append_assoc)
qed

text \<open>
  C7. Parsing never fails: for every response of the provider, with any text or none,
  \<open>researchTopicForPrompt\<close> returns a result. When \<open>FACTS:\<close> occurs nowhere in the text
  (in either case of its letters) the facts are empty; when \<open>IMAGE_PROMPT:\<close> occurs nowhere
  the prompt is the fallback built from the topic and the two instructions, which contains
  the topic; an empty or absent text gives both defaults.
\<close>

theorem parsing_degrades_to_defaults:
  assumes "generateContent (research_request topic level style language) = Inr response"
  shows "\<exists>r. researchTopicForPrompt generateContent topic level style language = Inr r \<and>
           (\<not> sublist ''FACTS:'' (map canonicalize (text_of response)) \<longrightarrow> facts r = []) \<and>
           (\<not> sublist ''IMAGE_PROMPT:'' (map canonicalize (text_of response)) \<longrightarrow>
              imagePrompt r =
                ''Create a detailed 16:9 widescreen format infographic about '' @ topic @ ''. '' @
                  getLevelInstruction level @ '' '' @ getStyleInstruction style @ '' '' @
                  quality_sentence \<and>
              sublist topic (imagePrompt r)) \<and>
           (text_of response = [] \<longrightarrow>
              facts r = [] \<and>
              imagePrompt r =
                ''Create a detailed 16:9 widescreen format infographic about '' @ topic @ ''. '' @
                  getLevelInstruction level @ '' '' @ getStyleInstruction style @ '' '' @
                  quality_sentence)"
proof -
  let ?r = "research_result topic level style response"
  let ?fallback = "''Create a detailed 16:9 widescreen format infographic about '' @ topic @ ''. '' @
                  getLevelInstruction level @ '' '' @ getStyleInstruction style @ '' '' @
                  quality_sentence"
  have f: "facts ?r = []" if "\<not> sublist ''FACTS:'' (map canonicalize (text_of response))"
  proof -
    from that have "factsMatch (text_of response) = None"
      by (simp add: factsMatch_None)
    then show ?thesis
      by (simp only: facts_research_result parse_facts_no_match)
  qed
  have p: "imagePrompt ?r = ?fallback"
    if "\<not> sublist ''IMAGE_PROMPT:'' (map canonicalize (text_of response))"
  proof -
    from that have "promptMatch (text_of response) = None"
      by (simp add: promptMatch_None)
    then show ?thesis
      by (rule imagePrompt_no_match)
  qed
  have s: "sublist topic ?fallback"
    by (rule sublist_appendI)
  have e: "\<not> sublist ''FACTS:'' (map canonicalize (text_of response)) \<and>
           \<not> sublist ''IMAGE_PROMPT:'' (map canonicalize (text_of response))"
    if "text_of response = []"
    unfolding that by simp
  have "researchTopicForPrompt generateContent topic level style language = Inr ?r"
    using assms by (rule researchTopicForPrompt_returns)
  moreover have "\<not> sublist ''FACTS:'' (map canonicalize (text_of response)) \<longrightarrow> facts ?r = []"
    using f by blast
  moreover have "\<not> sublist ''IMAGE_PROMPT:'' (map canonicalize (text_of response)) \<longrightarrow>
      imagePrompt ?r = ?fallback \<and> sublist topic (imagePrompt ?r)"
    using p s by (simp del: append.simps)
  moreover have "text_of response = [] \<longrightarrow> facts ?r = [] \<and> imagePrompt ?r = ?fallback"
    using e f p by blast
  ultimately show ?thesis
    by blast
qed

theorem parsing_degrades_to_defaults_witness:
  "\<exists>r. researchTopicForPrompt (simulated_provider (text_response ''Fact: cats purr. Image prompt - none''))
          ''cats'' ''Expert'' ''Sketch'' ''English'' = Inr r \<and>
       facts r = [] \<and> sublist ''cats'' (imagePrompt r)"
proof -
  let ?resp = "text_response ''Fact: cats purr. Image prompt - none''"
  have n: "\<not> sublist ''FACTS:'' (map canonicalize (text_of ?resp))"
          "\<not> sublist ''IMAGE_PROMPT:'' (map canonicalize (text_of ?resp))"
    by code_simp+
  have "simulated_provider ?resp (research_request ''cats'' ''Expert'' ''Sketch'' ''English'') =
        Inr ?resp"
    by (simp add: simulated_provider_def)
  from parsing_degrades_to_defaults [where generateContent = "simulated_provider ?resp"
      and topic = "''cats''" and level = "''Expert''" and style = "''Sketch''"
      and language = "''English''" and response = ?resp, OF this]
  show ?thesis
    using n by blast
qed

subsection \<open>The facts\<close>

lemma parse_facts_pipeline:
  "parse_facts txt =
     take 5 (filter (\<lambda>l. l \<noteq> []) (map (\<lambda>l. trim (replace_dash l)) (split_nl (facts_section txt))))"
  by (simp add: parse_facts_def facts_section_def Let_def)

lemma length_parse_facts: "length (parse_facts txt) \<le> 5"
  by (simp add: parse_facts_pipeline)

lemma split_nl_nonempty: "split_nl s \<noteq> []"
  by (induction s) (auto split: list.splits)

lemma split_nl_line: "CHR 0x0A \<notin> set l \<Longrightarrow> split_nl l = [l]"
  by (induction l) auto

lemma split_nl_append:
  "CHR 0x0A \<notin> set l \<Longrightarrow> split_nl (l @ CHR 0x0A # s) = l # split_nl s"
  by (induction l) auto

lemma split_nl_join_nl:
  "ls \<noteq> [] \<Longrightarrow> \<forall>l \<in> set ls. CHR 0x0A \<notin> set l \<Longrightarrow> split_nl (join_nl ls) = ls"
  by (induction ls rule: join_nl.induct) (simp_all add: split_nl_line split_nl_append)

lemma trim_id:
  assumes "s \<noteq> []" "\<not> isWhiteSpace (hd s)" "\<not> isWhiteSpace (last s)"
  shows "trim s = s"
proof -
  from assms(1,2) have a: "dropWhile isWhiteSpace s = s"
    by (cases s) auto
  from assms(1,3) have "dropWhile isWhiteSpace (rev s) = rev s"
    by (cases s rule: rev_cases) auto
  with a show ?thesis
    by (simp add: trim_def)
qed

lemma trim_snoc_ws:
  assumes "s \<noteq> []" "\<not> isWhiteSpace (hd s)" "\<not> isWhiteSpace (last s)" "isWhiteSpace c"
  shows "trim (s @ [c]) = s"
proof -
  from assms(1,2) have a: "dropWhile isWhiteSpace (s @ [c]) = s @ [c]"
    by (cases s) auto
  from assms(1,3) have "dropWhile isWhiteSpace (rev s) = rev s"
    by (cases s rule: rev_cases) auto
  with a assms(4) show ?thesis
    by (simp add: trim_def)
qed

lemma replace_dash_bullet: "plain_fact f \<Longrightarrow> trim (replace_dash (bullet f)) = f"
proof -
  assume p: "plain_fact f"
  then have "dropWhile isWhiteSpace f = f"
    by (cases f) (auto simp: plain_fact_def)
  then have "replace_dash (bullet f) = f"
    by (simp add: bullet_def isWhiteSpace_def)
  moreover have "trim f = f"
    using p by (intro trim_id) (auto simp: plain_fact_def)
  ultimately show ?thesis by simp
qed

lemma hd_join_nl: "ls \<noteq> [] \<Longrightarrow> hd ls \<noteq> [] \<Longrightarrow> hd (join_nl ls) = hd (hd ls)"
  by (induction ls rule: join_nl.induct) auto

lemma join_nl_last_nonempty: "ls \<noteq> [] \<Longrightarrow> last ls \<noteq> [] \<Longrightarrow> join_nl ls \<noteq> []"
  by (induction ls rule: join_nl.induct) auto

lemma last_join_nl: "ls \<noteq> [] \<Longrightarrow> last ls \<noteq> [] \<Longrightarrow> last (join_nl ls) = last (last ls)"
  by (induction ls rule: join_nl.induct) (auto simp: join_nl_last_nonempty)

lemma join_nl_nonempty: "ls \<noteq> [] \<Longrightarrow> hd ls \<noteq> [] \<Longrightarrow> join_nl ls \<noteq> []"
  by (induction ls rule: join_nl.induct) auto

lemma lazy_until_ci_all:
  "\<not> sublist (map canonicalize p) (map canonicalize s) \<Longrightarrow> lazy_until_ci p s = s"
  by (induction s) (auto simp: matches_ci_prefix sublist_Cons_right)

lemma sublist_snoc:
  assumes "sublist xs (ys @ [c])" "c \<notin> set xs"
  shows "sublist xs ys"
proof -
  from assms(1) obtain ps ss where e: "ys @ [c] = ps @ xs @ ss"
    by (auto simp: sublist_def)
  show ?thesis
  proof (cases ss rule: rev_cases)
    case Nil
    show ?thesis
    proof (cases xs rule: rev_cases)
      case Nil
      then show ?thesis by simp
    next
      case (snoc xs' x)
      with e \<open>ss = []\<close> have "x = c"
        by (metis append.assoc append_Nil2 last_snoc)
      with snoc assms(2) show ?thesis by simp
    qed
  next
    case (snoc ss' x)
    with e have "ys = ps @ xs @ ss'"
      by (metis append.assoc butlast_snoc)
    then show ?thesis by (auto simp: sublist_def)
  qed
qed

lemma lazy_until_ci_stop:
  assumes h: "h \<notin> set t" and n: "\<not> sublist (h # t) (map canonicalize s)"
    and p: "map canonicalize p = h # t" and m: "matches_ci p u"
  shows "lazy_until_ci p (s @ u) = s"
  using n
proof (induction s)
  case Nil
  from m p show ?case
    by (cases u) (auto simp: matches_ci_prefix)
next
  case (Cons c s)
  from Cons.prems have ns: "\<not> sublist (h # t) (map canonicalize s)"
    and np: "\<not> prefix (h # t) (map canonicalize (c # s))"
    by (auto simp: sublist_Cons_right)
  have "\<not> prefix (h # t) (map canonicalize (c # s) @ map canonicalize u)"
  proof
    assume "prefix (h # t) (map canonicalize (c # s) @ map canonicalize u)"
    with np obtain us where us: "h # t = map canonicalize (c # s) @ us"
        "prefix us (map canonicalize u)"
      by (auto simp: prefix_append)
    from m p have "prefix (h # t) (map canonicalize u)"
      by (simp add: matches_ci_prefix)
    with us(2) have "prefix us (h # t) \<or> prefix (h # t) us"
      by (rule prefix_same_cases)
    moreover from us(1) have l: "length us < length (h # t)"
      by (metis length_append length_map list.size(4) add.commute less_add_Suc2 add_Suc_right
          less_add_same_cancel2 zero_less_Suc)
    ultimately have pu: "prefix us (h # t)"
      by (metis prefix_length_le not_less)
    from np us(1) have "us \<noteq> []" by auto
    with pu obtain us' where "us = h # us'"
      by (cases us) auto
    with us(1) have "t = map canonicalize s @ h # us'"
      by simp
    with h show False by simp
  qed
  then have "\<not> matches_ci p ((c # s) @ u)"
    by (simp add: matches_ci_prefix p)
  with Cons.IH [OF ns] show ?case by simp
qed

lemma matches_ci_self: "matches_ci p (p @ s)"
  by (induction p) auto

lemma after_first_ci_start: "p \<noteq> [] \<Longrightarrow> after_first_ci p (p @ s) = Some s"
  using matches_ci_self [of p s] by (cases p) auto

lemma bullets_shape:
  assumes "fs \<noteq> []" "\<forall>f \<in> set fs. plain_fact f"
  shows "join_nl (map bullet fs) \<noteq> []"
    and "hd (join_nl (map bullet fs)) = CHR ''-''"
    and "\<not> isWhiteSpace (last (join_nl (map bullet fs)))"
    and "split_nl (join_nl (map bullet fs)) = map bullet fs"
proof -
  let ?ls = "map bullet fs"
  from assms(1) have ne: "?ls \<noteq> []" by simp
  have h: "hd ?ls \<noteq> []" "hd (hd ?ls) = CHR ''-''"
    using assms(1) by (cases fs; simp add: bullet_def)+
  have "last fs \<in> set fs"
    using assms(1) by simp
  then have pl: "plain_fact (last fs)"
    using assms(2) by blast
  have l: "last ?ls = bullet (last fs)"
    using assms(1) by (simp add: last_map)
  then have ln: "last ?ls \<noteq> []"
    by (simp add: bullet_def)
  have ll: "last (last ?ls) = last (last fs)"
    using pl unfolding l by (simp add: bullet_def plain_fact_def)
  show "join_nl ?ls \<noteq> []"
    using ne h(1) by (rule join_nl_nonempty)
  show "hd (join_nl ?ls) = CHR ''-''"
    using hd_join_nl [OF ne h(1)] h(2) by simp
  show "\<not> isWhiteSpace (last (join_nl ?ls))"
    using last_join_nl [OF ne ln] ll pl by (simp add: plain_fact_def)
  have "\<forall>l \<in> set ?ls. CHR 0x0A \<notin> set l"
    using assms(2) by (auto simp: bullet_def plain_fact_def)
  with ne show "split_nl (join_nl ?ls) = ?ls"
    by (rule split_nl_join_nl)
qed

lemma facts_section_bulleted:
  assumes fs: "fs \<noteq> []" "\<forall>f \<in> set fs. plain_fact f"
    and n: "\<not> sublist ''IMAGE_PROMPT:'' (map canonicalize (join_nl (map bullet fs)))"
    and t: "tail = [] \<or> (\<exists>rest. tail = NL @ ''IMAGE_PROMPT:'' @ rest)"
  shows "facts_section (''FACTS:'' @ NL @ join_nl (map bullet fs) @ tail) = join_nl (map bullet fs)"
proof -
  let ?B = "join_nl (map bullet fs)"
  note sh = bullets_shape [OF fs]
  have nws: "\<not> isWhiteSpace (hd ?B)"
    unfolding sh(2) by (simp add: isWhiteSpace_def)
  have "after_first_ci ''FACTS:'' (''FACTS:'' @ (NL @ ?B @ tail)) = Some (NL @ ?B @ tail)"
    by (rule after_first_ci_start) simp
  moreover have "dropWhile isWhiteSpace (NL @ ?B @ tail) = ?B @ tail"
    using sh(1) nws by (cases ?B) (auto simp: isWhiteSpace_def)
  ultimately have fm: "factsMatch (''FACTS:'' @ NL @ ?B @ tail) =
      Some (lazy_until_ci ''IMAGE_PROMPT:'' (?B @ tail))"
    by (simp add: factsMatch_def del: after_first_ci.simps)
  from t have "trim (lazy_until_ci ''IMAGE_PROMPT:'' (?B @ tail)) = ?B"
  proof
    assume "tail = []"
    moreover have "\<not> sublist (map canonicalize ''IMAGE_PROMPT:'') (map canonicalize ?B)"
      unfolding canonical_headers by (rule n)
    then have "lazy_until_ci ''IMAGE_PROMPT:'' ?B = ?B"
      by (rule lazy_until_ci_all)
    moreover have "trim ?B = ?B"
      using sh(1) nws sh(3) by (rule trim_id)
    ultimately show ?thesis by simp
  next
    assume "\<exists>rest. tail = NL @ ''IMAGE_PROMPT:'' @ rest"
    then obtain rest where tail: "tail = NL @ ''IMAGE_PROMPT:'' @ rest" ..
    have "\<not> sublist ''IMAGE_PROMPT:'' (map canonicalize ?B @ [CHR 0x0A])"
      using n sublist_snoc [of "''IMAGE_PROMPT:''" "map canonicalize ?B" "CHR 0x0A"]
      by auto
    then have n': "\<not> sublist (CHR ''I'' # ''MAGE_PROMPT:'') (map canonicalize (?B @ NL))"
      by (simp add: canonicalize_def)
    have "lazy_until_ci ''IMAGE_PROMPT:'' ((?B @ NL) @ (''IMAGE_PROMPT:'' @ rest)) = ?B @ NL"
      by (rule lazy_until_ci_stop [OF _ n' _ matches_ci_self]) (simp_all add: canonicalize_def)
    moreover have "trim (?B @ NL) = ?B"
      using sh(1) nws sh(3) by (rule trim_snoc_ws) (simp add: isWhiteSpace_def)
    ultimately show ?thesis
      by (simp add: tail)
  qed
  with fm show ?thesis
    by (simp only: facts_section_def option.case)
qed

lemma parse_facts_bulleted:
  assumes fs: "fs \<noteq> []" "\<forall>f \<in> set fs. plain_fact f"
    and n: "\<not> sublist ''IMAGE_PROMPT:'' (map canonicalize (join_nl (map bullet fs)))"
    and t: "tail = [] \<or> (\<exists>rest. tail = NL @ ''IMAGE_PROMPT:'' @ rest)"
  shows "parse_facts (''FACTS:'' @ NL @ join_nl (map bullet fs) @ tail) = take 5 fs"
proof -
  have "map (\<lambda>l. trim (replace_dash l)) (map bullet fs) = fs"
    using fs(2) by (induction fs) (simp_all add: replace_dash_bullet)
  moreover have "filter (\<lambda>l. l \<noteq> []) fs = fs"
    using fs(2) by (auto simp: plain_fact_def filter_id_conv)
  ultimately show ?thesis
    by (simp only: parse_facts_pipeline facts_section_bulleted [OF fs n t]
        bullets_shape(4) [OF fs])
qed


text \<open>
  C6, as the code has it. Whatever response the provider gives, the facts returned by
  \<open>researchTopicForPrompt\<close> are obtained from the lines of the FACTS section by removing
  from each line a dash at its start together with any white space behind the dash (the
  space is not required), then the surrounding white space, dropping the empty lines and
  keeping at most the first five entries in their order. So there are never more than five
  facts; and a text of bulleted facts \<open>- f\<close>, one per line under \<open>FACTS:\<close>, alone or followed
  by the \<open>IMAGE_PROMPT:\<close> section, gives its first five facts: eight bulleted facts give
  exactly five.
\<close>

theorem facts_at_most_five:
  assumes "generateContent (research_request topic level style language) = Inr response"
  shows "\<exists>r. researchTopicForPrompt generateContent topic level style language = Inr r \<and>
           facts r =
             take 5 (filter (\<lambda>l. l \<noteq> [])
                       (map (\<lambda>l. trim (replace_dash l))
                          (split_nl (facts_section (text_of response))))) \<and>
           length (facts r) \<le> 5 \<and>
           (\<forall>fs tail.
              text_of response = ''FACTS:'' @ NL @ join_nl (map bullet fs) @ tail \<and>
              fs \<noteq> [] \<and> (\<forall>f \<in> set fs. plain_fact f) \<and>
              \<not> sublist ''IMAGE_PROMPT:'' (map canonicalize (join_nl (map bullet fs))) \<and>
              (tail = [] \<or> (\<exists>rest. tail = NL @ ''IMAGE_PROMPT:'' @ rest)) \<longrightarrow>
              facts r = take 5 fs \<and> (length fs = 8 \<longrightarrow> length (facts r) = 5))"
proof -
  let ?r = "research_result topic level style response"
  have "researchTopicForPrompt generateContent topic level style language = Inr ?r"
    using assms by (rule researchTopicForPrompt_returns)
  moreover have "facts ?r =
      take 5 (filter (\<lambda>l. l \<noteq> [])
                (map (\<lambda>l. trim (replace_dash l)) (split_nl (facts_section (text_of response)))))"
    by (simp only: facts_research_result parse_facts_pipeline)
  moreover have "length (facts ?r) \<le> 5"
    by (simp only: facts_research_result length_parse_facts)
  moreover have "facts ?r = take 5 fs \<and> (length fs = 8 \<longrightarrow> length (facts ?r) = 5)"
    if "text_of response = ''FACTS:'' @ NL @ join_nl (map bullet fs) @ tail"
      and "fs \<noteq> []" and "\<forall>f \<in> set fs. plain_fact f"
      and "\<not> sublist ''IMAGE_PROMPT:'' (map canonicalize (join_nl (map bullet fs)))"
      and "tail = [] \<or> (\<exists>rest. tail = NL @ ''IMAGE_PROMPT:'' @ rest)"
    for fs tail
  proof -
    have "facts ?r = take 5 fs"
      unfolding facts_research_result that(1)
      using that(2-5) by (rule parse_facts_bulleted)
    then show ?thesis by simp
  qed
  ultimately show ?thesis
    by blast
qed

theorem facts_at_most_five_witness:
  "\<exists>r. researchTopicForPrompt
         (simulated_provider (text_response
            (''FACTS:'' @ NL @
             join_nl (map bullet [''one'', ''two'', ''three'', ''four'', ''five'', ''six'',
                                  ''seven'', ''eight'']) @
             NL @ ''IMAGE_PROMPT:'' @ '' Draw the numbers'')))
         ''numbers'' ''Expert'' ''Sketch'' ''English'' = Inr r \<and>
       facts r = [''one'', ''two'', ''three'', ''four'', ''five'']"
proof -
  let ?fs = "[''one'', ''two'', ''three'', ''four'', ''five'', ''six'', ''seven'', ''eight'']"
  let ?resp = "text_response
            (''FACTS:'' @ NL @ join_nl (map bullet ?fs) @ NL @ ''IMAGE_PROMPT:'' @ '' Draw the numbers'')"
  have t: "text_of ?resp =
      ''FACTS:'' @ NL @ join_nl (map bullet ?fs) @ (NL @ ''IMAGE_PROMPT:'' @ '' Draw the numbers'')"
    by (simp add: text_of_def text_response_def)
  have pl: "\<forall>f \<in> set ?fs. plain_fact f"
    by (simp add: plain_fact_def isWhiteSpace_def)
  have n: "\<not> sublist ''IMAGE_PROMPT:'' (map canonicalize (join_nl (map bullet ?fs)))"
    by code_simp
  have "simulated_provider ?resp (research_request ''numbers'' ''Expert'' ''Sketch'' ''English'') =
        Inr ?resp"
    by (simp add: simulated_provider_def)
  from facts_at_most_five [where generateContent = "simulated_provider ?resp"
      and topic = "''numbers''" and level = "''Expert''" and style = "''Sketch''"
      and language = "''English''" and response = ?resp, OF this]
  obtain r where r: "researchTopicForPrompt (simulated_provider ?resp)
        ''numbers'' ''Expert'' ''Sketch'' ''English'' = Inr r"
    and b: "\<forall>fs tail.
              text_of ?resp = ''FACTS:'' @ NL @ join_nl (map bullet fs) @ tail \<and>
              fs \<noteq> [] \<and> (\<forall>f \<in> set fs. plain_fact f) \<and>
              \<not> sublist ''IMAGE_PROMPT:'' (map canonicalize (join_nl (map bullet fs))) \<and>
              (tail = [] \<or> (\<exists>rest. tail = NL @ ''IMAGE_PROMPT:'' @ rest)) \<longrightarrow>
              facts r = take 5 fs \<and> (length fs = 8 \<longrightarrow> length (facts r) = 5)"
    by blast
  have "facts r = take 5 ?fs"
    using b [rule_format, of ?fs "NL @ ''IMAGE_PROMPT:'' @ '' Draw the numbers''"] t pl n
    by blast
  then have "facts r = [''one'', ''two'', ''three'', ''four'', ''five'']"
    by simp
  with r show ?thesis by blast
qed

text \<open>
  C6 as the specification states it, with the marker \<open>"- "\<close>, fails on a line that begins
  with a dash and no space: the fact \<open>-40 degrees ...\<close> has no such marker and would be
  kept as it is, while the code returns it without its minus sign.
\<close>

theorem dash_without_space_stripped:
  "researchTopicForPrompt
     (simulated_provider (text_response
        (''FACTS:'' @ NL @ ''-40 degrees is as cold in Celsius as in Fahrenheit'')))
     ''cold'' ''Expert'' ''Sketch'' ''English'' =
   Inr (research_result ''cold'' ''Expert'' ''Sketch'' (text_response
        (''FACTS:'' @ NL @ ''-40 degrees is as cold in Celsius as in Fahrenheit''))) \<and>
   facts (research_result ''cold'' ''Expert'' ''Sketch'' (text_response
        (''FACTS:'' @ NL @ ''-40 degrees is as cold in Celsius as in Fahrenheit''))) =
     [''40 degrees is as cold in Celsius as in Fahrenheit''] \<and>
   facts_as_specified (facts_section
        (''FACTS:'' @ NL @ ''-40 degrees is as cold in Celsius as in Fahrenheit'')) =
     [''-40 degrees is as cold in Celsius as in Fahrenheit'']"
proof -
  let ?txt = "''FACTS:'' @ NL @ ''-40 degrees is as cold in Celsius as in Fahrenheit''"
  have a: "researchTopicForPrompt (simulated_provider (text_response ?txt))
             ''cold'' ''Expert'' ''Sketch'' ''English'' =
           Inr (research_result ''cold'' ''Expert'' ''Sketch'' (text_response ?txt))"
    by (simp add: researchTopicForPrompt_def simulated_provider_def)
  have b: "facts (research_result ''cold'' ''Expert'' ''Sketch'' (text_response ?txt)) =
           parse_facts ?txt"
    by (simp add: facts_research_result text_of_def text_response_def)
  have c: "parse_facts ?txt = [''40 degrees is as cold in Celsius as in Fahrenheit'']"
    by code_simp
  have d: "facts_as_specified (facts_section ?txt) =
           [''-40 degrees is as cold in Celsius as in Fahrenheit'']"
    by code_simp
  show ?thesis
    using a b c d by (simp only: simp_thms)
qed

subsection \<open>The mandate sentence\<close>

lemma initial_imagePrompt_extracted:
  assumes "\<forall>c \<in> set ws. isWhiteSpace c" "q \<noteq> []" "\<not> isWhiteSpace (hd q)"
    "\<not> isWhiteSpace (last q)"
  shows "initial_imagePrompt topic levelInstr styleInstr (''IMAGE_PROMPT:'' @ ws @ q) = q"
proof -
  have "after_first_ci ''IMAGE_PROMPT:'' (''IMAGE_PROMPT:'' @ (ws @ q)) = Some (ws @ q)"
    by (rule after_first_ci_start) simp
  moreover have "dropWhile isWhiteSpace (ws @ q) = dropWhile isWhiteSpace q"
    using assms(1) by (intro dropWhile_append2) simp
  moreover have "dropWhile isWhiteSpace q = q"
    using assms(2,3) by (cases q) auto
  ultimately have "promptMatch (''IMAGE_PROMPT:'' @ ws @ q) = Some q"
    by (simp add: promptMatch_def del: after_first_ci.simps)
  moreover have "trim q = q"
    using assms(2-4) by (rule trim_id)
  ultimately show ?thesis
    by (simp add: initial_imagePrompt_def)
qed

lemma initial_imagePrompt_fallback:
  "\<not> sublist ''IMAGE_PROMPT:'' (map canonicalize t) \<Longrightarrow>
     initial_imagePrompt topic levelInstr styleInstr t =
       ''Create a detailed 16:9 widescreen format infographic about '' @ topic @ ''. '' @
         levelInstr @ '' '' @ styleInstr"
  using promptMatch_None [of t] by (simp add: initial_imagePrompt_def)

text \<open>
  C5. Whatever response the provider gives: when the extracted or fallback prompt, in lower
  case, contains neither \<open>16:9\<close> nor \<open>widescreen\<close>, the returned \<open>imagePrompt\<close> is that
  prompt with the sentence \<open>Create a 16:9 widescreen format infographic.\<close> in front (and
  the quality sentence behind); when it contains one of the two, nothing is put in front.
  The extracted prompt is what follows \<open>IMAGE_PROMPT:\<close> and its white space; the fallback
  is the sentence built from the topic and the two instructions.
\<close>

theorem imagePrompt_aspect_mandate:
  assumes "generateContent (research_request topic level style language) = Inr response"
  shows "\<exists>r p. researchTopicForPrompt generateContent topic level style language = Inr r \<and>
           p = initial_imagePrompt topic (getLevelInstruction level) (getStyleInstruction style)
                 (text_of response) \<and>
           (\<not> sublist ''16:9'' (toLowerCase p) \<and> \<not> sublist ''widescreen'' (toLowerCase p) \<longrightarrow>
              imagePrompt r =
                ''Create a 16:9 widescreen format infographic. '' @ p @
                '' High resolution, professional quality, crisp and clear details, well-balanced composition, maximum visual clarity.'') \<and>
           (sublist ''16:9'' (toLowerCase p) \<or> sublist ''widescreen'' (toLowerCase p) \<longrightarrow>
              imagePrompt r =
                p @
                '' High resolution, professional quality, crisp and clear details, well-balanced composition, maximum visual clarity.'') \<and>
           (\<forall>ws q.
              text_of response = ''IMAGE_PROMPT:'' @ ws @ q \<and> (\<forall>c \<in> set ws. isWhiteSpace c) \<and>
              q \<noteq> [] \<and> \<not> isWhiteSpace (hd q) \<and> \<not> isWhiteSpace (last q) \<longrightarrow>
              p = q) \<and>
           (\<not> sublist ''IMAGE_PROMPT:'' (map canonicalize (text_of response)) \<longrightarrow>
              p = ''Create a detailed 16:9 widescreen format infographic about '' @ topic @ ''. '' @
                    getLevelInstruction level @ '' '' @ getStyleInstruction style)"
proof -
  let ?r = "research_result topic level style response"
  let ?p = "initial_imagePrompt topic (getLevelInstruction level) (getStyleInstruction style)
              (text_of response)"
  let ?m = "''Create a 16:9 widescreen format infographic. ''"
  let ?s = "'' High resolution, professional quality, crisp and clear details, well-balanced composition, maximum visual clarity.''"
  have s: "add_quality_suffix x = x @ ?s" for x
    by (simp add: add_quality_suffix_def quality_sentence_def)
  have m: "aspect_mandate = ?m"
    by (simp add: aspect_mandate_def)
  have i: "imagePrompt ?r = ensure_aspect_ratio ?p @ ?s"
    by (simp only: imagePrompt_research_result s)
  have a: "\<not> sublist ''16:9'' (toLowerCase ?p) \<and> \<not> sublist ''widescreen'' (toLowerCase ?p) \<longrightarrow>
           imagePrompt ?r = ?m @ ?p @ ?s"
    unfolding i ensure_aspect_ratio_sublist m by (simp del: append.simps)
  have b: "sublist ''16:9'' (toLowerCase ?p) \<or> sublist ''widescreen'' (toLowerCase ?p) \<longrightarrow>
           imagePrompt ?r = ?p @ ?s"
    unfolding i ensure_aspect_ratio_sublist by (simp del: append.simps)
  have c: "?p = q"
    if "text_of response = ''IMAGE_PROMPT:'' @ ws @ q \<and> (\<forall>c \<in> set ws. isWhiteSpace c) \<and>
        q \<noteq> [] \<and> \<not> isWhiteSpace (hd q) \<and> \<not> isWhiteSpace (last q)" for ws q
  proof -
    from that have t: "text_of response = ''IMAGE_PROMPT:'' @ ws @ q"
      and h: "\<forall>c \<in> set ws. isWhiteSpace c" "q \<noteq> []" "\<not> isWhiteSpace (hd q)"
        "\<not> isWhiteSpace (last q)"
      by simp_all
    show ?thesis
      unfolding t using h by (rule initial_imagePrompt_extracted)
  qed
  have d: "\<not> sublist ''IMAGE_PROMPT:'' (map canonicalize (text_of response)) \<longrightarrow>
           ?p = ''Create a detailed 16:9 widescreen format infographic about '' @ topic @ ''. '' @
                    getLevelInstruction level @ '' '' @ getStyleInstruction style"
    by (rule impI) (rule initial_imagePrompt_fallback)
  have e: "researchTopicForPrompt generateContent topic level style language = Inr ?r"
    using assms by (rule researchTopicForPrompt_returns)
  have "\<forall>ws q.
          text_of response = ''IMAGE_PROMPT:'' @ ws @ q \<and> (\<forall>c \<in> set ws. isWhiteSpace c) \<and>
          q \<noteq> [] \<and> \<not> isWhiteSpace (hd q) \<and> \<not> isWhiteSpace (last q) \<longrightarrow> ?p = q"
    using c by (intro allI impI)
  with e a b d show ?thesis
    by (intro exI [of _ ?r] exI [of _ ?p] conjI refl)
qed

theorem imagePrompt_aspect_mandate_witness:
  "(\<exists>r. researchTopicForPrompt (simulated_provider (text_response ''IMAGE_PROMPT: Draw cats''))
          ''cats'' ''Expert'' ''Sketch'' ''English'' = Inr r \<and>
        imagePrompt r =
          ''Create a 16:9 widescreen format infographic. Draw cats High resolution, professional quality, crisp and clear details, well-balanced composition, maximum visual clarity.'') \<and>
   (\<exists>r. researchTopicForPrompt
          (simulated_provider (text_response ''IMAGE_PROMPT: A WideScreen poster of cats''))
          ''cats'' ''Expert'' ''Sketch'' ''English'' = Inr r \<and>
        imagePrompt r =
          ''A WideScreen poster of cats High resolution, professional quality, crisp and clear details, well-balanced composition, maximum visual clarity.'')"
proof -
  let ?a = "text_response ''IMAGE_PROMPT: Draw cats''"
  let ?b = "text_response ''IMAGE_PROMPT: A WideScreen poster of cats''"
  have ta: "text_of ?a = ''IMAGE_PROMPT:'' @ '' '' @ ''Draw cats'' \<and>
            (\<forall>c \<in> set '' ''. isWhiteSpace c) \<and> ''Draw cats'' \<noteq> [] \<and>
            \<not> isWhiteSpace (hd ''Draw cats'') \<and> \<not> isWhiteSpace (last ''Draw cats'')"
    by (simp add: text_of_def text_response_def isWhiteSpace_def)
  have tb: "text_of ?b = ''IMAGE_PROMPT:'' @ '' '' @ ''A WideScreen poster of cats'' \<and>
            (\<forall>c \<in> set '' ''. isWhiteSpace c) \<and> ''A WideScreen poster of cats'' \<noteq> [] \<and>
            \<not> isWhiteSpace (hd ''A WideScreen poster of cats'') \<and>
            \<not> isWhiteSpace (last ''A WideScreen poster of cats'')"
    by (simp add: text_of_def text_response_def isWhiteSpace_def)
  have na: "\<not> sublist ''16:9'' (toLowerCase ''Draw cats'') \<and>
            \<not> sublist ''widescreen'' (toLowerCase ''Draw cats'')"
    by code_simp
  have yb: "sublist ''16:9'' (toLowerCase ''A WideScreen poster of cats'') \<or>
            sublist ''widescreen'' (toLowerCase ''A WideScreen poster of cats'')"
    by code_simp
  have ha: "simulated_provider ?a (research_request ''cats'' ''Expert'' ''Sketch'' ''English'') = Inr ?a"
    by (simp add: simulated_provider_def)
  have hb: "simulated_provider ?b (research_request ''cats'' ''Expert'' ''Sketch'' ''English'') = Inr ?b"
    by (simp add: simulated_provider_def)
  from imagePrompt_aspect_mandate [where generateContent = "simulated_provider ?a"
      and topic = "''cats''" and level = "''Expert''" and style = "''Sketch''"
      and language = "''English''" and response = ?a, OF ha]
  obtain r p where
    r: "researchTopicForPrompt (simulated_provider ?a) ''cats'' ''Expert'' ''Sketch'' ''English'' = Inr r"
    and i: "\<not> sublist ''16:9'' (toLowerCase p) \<and> \<not> sublist ''widescreen'' (toLowerCase p) \<longrightarrow>
              imagePrompt r =
                ''Create a 16:9 widescreen format infographic. '' @ p @
                '' High resolution, professional quality, crisp and clear details, well-balanced composition, maximum visual clarity.''"
    and e: "\<forall>ws q.
              text_of ?a = ''IMAGE_PROMPT:'' @ ws @ q \<and> (\<forall>c \<in> set ws. isWhiteSpace c) \<and>
              q \<noteq> [] \<and> \<not> isWhiteSpace (hd q) \<and> \<not> isWhiteSpace (last q) \<longrightarrow>
              p = q"
    by (elim exE conjE)
  from e [rule_format, OF ta] have p: "p = ''Draw cats''" .
  from i [unfolded p, rule_format, OF na] r
  have a: "\<exists>r. researchTopicForPrompt (simulated_provider ?a)
          ''cats'' ''Expert'' ''Sketch'' ''English'' = Inr r \<and>
        imagePrompt r =
          ''Create a 16:9 widescreen format infographic. Draw cats High resolution, professional quality, crisp and clear details, well-balanced composition, maximum visual clarity.''"
    by (intro exI [of _ r]) simp
  from imagePrompt_aspect_mandate [where generateContent = "simulated_provider ?b"
      and topic = "''cats''" and level = "''Expert''" and style = "''Sketch''"
      and language = "''English''" and response = ?b, OF hb]
  obtain r' p' where
    r': "researchTopicForPrompt (simulated_provider ?b) ''cats'' ''Expert'' ''Sketch'' ''English'' = Inr r'"
    and i': "sublist ''16:9'' (toLowerCase p') \<or> sublist ''widescreen'' (toLowerCase p') \<longrightarrow>
              imagePrompt r' =
                p' @
                '' High resolution, professional quality, crisp and clear details, well-balanced composition, maximum visual clarity.''"
    and e': "\<forall>ws q.
              text_of ?b = ''IMAGE_PROMPT:'' @ ws @ q \<and> (\<forall>c \<in> set ws. isWhiteSpace c) \<and>
              q \<noteq> [] \<and> \<not> isWhiteSpace (hd q) \<and> \<not> isWhiteSpace (last q) \<longrightarrow>
              p' = q"
    by (elim exE conjE)
  from e' [rule_format, OF tb] have p': "p' = ''A WideScreen poster of cats''" .
  from i' [unfolded p', rule_format, OF yb] r'
  have b: "\<exists>r. researchTopicForPrompt (simulated_provider ?b)
          ''cats'' ''Expert'' ''Sketch'' ''English'' = Inr r \<and>
        imagePrompt r =
          ''A WideScreen poster of cats High resolution, professional quality, crisp and clear details, well-balanced composition, maximum visual clarity.''"
    by (intro exI [of _ r']) simp
  from a b show ?thesis by (rule conjI)
qed

end
